theory Spec2Isabelle
  imports Main "HOL-Library.Sublist"
begin

section \<open>Event model (copilotkit/protocol.py)\<close>

text \<open>
  The two enumerations of the protocol and their wire values (the \<^verbatim>\<open>.value\<close> of each
  member). Both are plain \<^verbatim>\<open>Enum\<close> classes: a member is equal only to itself, never to
  the string that is its value.
\<close>

datatype RuntimeEventTypes =
    TEXT_MESSAGE_START
  | TEXT_MESSAGE_CONTENT
  | TEXT_MESSAGE_END
  | ACTION_EXECUTION_START
  | ACTION_EXECUTION_ARGS
  | ACTION_EXECUTION_END
  | ACTION_EXECUTION_RESULT
  | AGENT_STATE_MESSAGE
  | META_EVENT
  | RUN_STARTED
  | RUN_FINISHED
  | RUN_ERROR
  | NODE_STARTED
  | NODE_FINISHED

fun RuntimeEventTypes_value :: "RuntimeEventTypes \<Rightarrow> string" where
  "RuntimeEventTypes_value TEXT_MESSAGE_START = ''TextMessageStart''"
| "RuntimeEventTypes_value TEXT_MESSAGE_CONTENT = ''TextMessageContent''"
| "RuntimeEventTypes_value TEXT_MESSAGE_END = ''TextMessageEnd''"
| "RuntimeEventTypes_value ACTION_EXECUTION_START = ''ActionExecutionStart''"
| "RuntimeEventTypes_value ACTION_EXECUTION_ARGS = ''ActionExecutionArgs''"
| "RuntimeEventTypes_value ACTION_EXECUTION_END = ''ActionExecutionEnd''"
| "RuntimeEventTypes_value ACTION_EXECUTION_RESULT = ''ActionExecutionResult''"
| "RuntimeEventTypes_value AGENT_STATE_MESSAGE = ''AgentStateMessage''"
| "RuntimeEventTypes_value META_EVENT = ''MetaEvent''"
| "RuntimeEventTypes_value RUN_STARTED = ''RunStarted''"
| "RuntimeEventTypes_value RUN_FINISHED = ''RunFinished''"
| "RuntimeEventTypes_value RUN_ERROR = ''RunError''"
| "RuntimeEventTypes_value NODE_STARTED = ''NodeStarted''"
| "RuntimeEventTypes_value NODE_FINISHED = ''NodeFinished''"

datatype RuntimeMetaEventName =
    LANG_GRAPH_INTERRUPT_EVENT
  | PREDICT_STATE
  | EXIT

fun RuntimeMetaEventName_value :: "RuntimeMetaEventName \<Rightarrow> string" where
  "RuntimeMetaEventName_value LANG_GRAPH_INTERRUPT_EVENT = ''LangGraphInterruptEvent''"
| "RuntimeMetaEventName_value PREDICT_STATE = ''PredictState''"
| "RuntimeMetaEventName_value EXIT = ''Exit''"

subsection \<open>Python values\<close>

text \<open>
  The JSON-compatible Python values that travel in events and in the agent state
  (\<^verbatim>\<open>Any\<close> in the source). A dict is an association list in insertion order, as Python
  keeps it. Floats are left out; characters are the code points below 256.
\<close>

datatype pyval =
    PNone
  | PBool bool
  | PInt int
  | PStr string
  | PList "pyval list"
  | PDict "(string \<times> pyval) list"

type_synonym pydict = "(string \<times> pyval) list"

text \<open>A top-level value of an event dict: a JSON value or a member of one of the enums.\<close>

datatype pyfield =
    Val pyval
  | TypeEnum RuntimeEventTypes
  | NameEnum RuntimeMetaEventName

type_synonym event_dict = "(string \<times> pyfield) list"

datatype py_error = AttributeError | KeyError | TypeError

text \<open>\<^verbatim>\<open>d[k] = v\<close>: an existing key keeps its position, a new key goes last.\<close>

fun dict_set :: "pydict \<Rightarrow> string \<Rightarrow> pyval \<Rightarrow> pydict" where
  "dict_set [] k v = [(k, v)]"
| "dict_set ((k', v') # d) k v =
     (if k' = k then (k, v) # d else (k', v') # dict_set d k v)"

text \<open>\<^verbatim>\<open>{**a, **b}\<close>: the items of \<open>a\<close>, then those of \<open>b\<close>, inserted one by one.\<close>

definition dict_merge :: "pydict \<Rightarrow> pydict \<Rightarrow> pydict" where
  "dict_merge a b = foldl (\<lambda>d (k, v). dict_set d k v) [] (a @ b)"

text \<open>\<^verbatim>\<open>obj.get(key)\<close> with a string key: only a dict has the method.\<close>

definition py_get :: "pyval \<Rightarrow> string \<Rightarrow> py_error + pyval" where
  "py_get obj key =
     (case obj of
        PDict d \<Rightarrow> Inr (case map_of d key of None \<Rightarrow> PNone | Some v \<Rightarrow> v)
      | _ \<Rightarrow> Inl AttributeError)"

text \<open>\<^verbatim>\<open>obj.get(key)\<close> where the key is itself a Python value: a list or a dict is
  unhashable; a key that is not a string is in no dict of this model.\<close>

definition py_get_val :: "pyval \<Rightarrow> pyval \<Rightarrow> py_error + pyval" where
  "py_get_val obj key =
     (case obj of
        PDict d \<Rightarrow>
          (case key of
             PStr s \<Rightarrow> Inr (case map_of d s of None \<Rightarrow> PNone | Some v \<Rightarrow> v)
           | PList _ \<Rightarrow> Inl TypeError
           | PDict _ \<Rightarrow> Inl TypeError
           | _ \<Rightarrow> Inr PNone)
      | _ \<Rightarrow> Inl AttributeError)"

text \<open>\<^verbatim>\<open>obj[key]\<close> with a string key.\<close>

definition py_getitem :: "pyval \<Rightarrow> string \<Rightarrow> py_error + pyval" where
  "py_getitem obj key =
     (case obj of
        PDict d \<Rightarrow> (case map_of d key of None \<Rightarrow> Inl KeyError | Some v \<Rightarrow> Inr v)
      | _ \<Rightarrow> Inl TypeError)"

text \<open>\<^verbatim>\<open>obj.items()\<close>.\<close>

definition py_items :: "pyval \<Rightarrow> py_error + pydict" where
  "py_items obj = (case obj of PDict d \<Rightarrow> Inr d | _ \<Rightarrow> Inl AttributeError)"

definition py_of_opt :: "string option \<Rightarrow> pyval" where
  "py_of_opt x = (case x of None \<Rightarrow> PNone | Some s \<Rightarrow> PStr s)"

subsection \<open>\<^verbatim>\<open>json.dumps\<close> with its default arguments\<close>

text \<open>
  \<^verbatim>\<open>ensure_ascii=True\<close>, separators \<^verbatim>\<open>", "\<close> and \<^verbatim>\<open>": "\<close>, no indentation. A string is
  written between double quotes; backslash, double quote and the five short escapes are
  written with a backslash, every other character outside \<^verbatim>\<open>' '..'~'\<close> as
  \<^verbatim>\<open>\u00XX\<close> in lower-case hexadecimal.
\<close>

definition hex_digit :: "nat \<Rightarrow> char" where
  "hex_digit n = ''0123456789abcdef'' ! (n mod 16)"

definition escape_char :: "char \<Rightarrow> string" where
  "escape_char c =
     (if c = CHR 0x5C then [CHR 0x5C, CHR 0x5C]
      else if c = CHR 0x22 then [CHR 0x5C, CHR 0x22]
      else if c = CHR 0x08 then [CHR 0x5C, CHR ''b'']
      else if c = CHR 0x0C then [CHR 0x5C, CHR ''f'']
      else if c = CHR 0x0A then [CHR 0x5C, CHR ''n'']
      else if c = CHR 0x0D then [CHR 0x5C, CHR ''r'']
      else if c = CHR 0x09 then [CHR 0x5C, CHR ''t'']
      else if of_char c < (32::nat) \<or> (126::nat) < of_char c
           then [CHR 0x5C, CHR ''u'', CHR ''0'', CHR ''0'',
                 hex_digit (of_char c div 16), hex_digit (of_char c mod 16)]
      else [c])"

definition encode_basestring_ascii :: "string \<Rightarrow> string" where
  "encode_basestring_ascii s = CHR 0x22 # concat (map escape_char s) @ [CHR 0x22]"

fun nat_digits :: "nat \<Rightarrow> string" where
  "nat_digits n =
     (if n < 10 then [''0123456789'' ! n]
      else nat_digits (n div 10) @ [''0123456789'' ! (n mod 10)])"

definition int_repr :: "int \<Rightarrow> string" where
  "int_repr i = (if i < 0 then CHR ''-'' # nat_digits (nat (- i)) else nat_digits (nat i))"

fun json_dumps :: "pyval \<Rightarrow> string"
  and dumps_elems :: "pyval list \<Rightarrow> string"
  and dumps_items :: "pydict \<Rightarrow> string" where
  "json_dumps PNone = ''null''"
| "json_dumps (PBool b) = (if b then ''true'' else ''false'')"
| "json_dumps (PInt i) = int_repr i"
| "json_dumps (PStr s) = encode_basestring_ascii s"
| "json_dumps (PList xs) = ''['' @ dumps_elems xs @ '']''"
| "json_dumps (PDict d) = ''{'' @ dumps_items d @ ''}''"
| "dumps_elems [] = []"
| "dumps_elems [x] = json_dumps x"
| "dumps_elems (x # y # ys) = json_dumps x @ '', '' @ dumps_elems (y # ys)"
| "dumps_items [] = []"
| "dumps_items [(k, v)] = encode_basestring_ascii k @ '': '' @ json_dumps v"
| "dumps_items ((k, v) # kv # kvs) =
     encode_basestring_ascii k @ '': '' @ json_dumps v @ '', '' @ dumps_items (kv # kvs)"

subsection \<open>Events\<close>

text \<open>
  The \<^verbatim>\<open>TypedDict\<close> classes of protocol.py, with their fields in the order of the class.
  \<^verbatim>\<open>MetaEvent.name\<close> is kept as a field value, so that a name outside the enumeration can
  be written. The agent state is a dict or a pydantic model (which \<^verbatim>\<open>model_dump()\<close>
  turns into a dict).
\<close>

datatype py_state =
    StateDict pydict
  | StateModel pydict

datatype RuntimeProtocolEvent =
    TextMessageStart string "string option"
  | TextMessageContent string string
  | TextMessageEnd string
  | ActionExecutionStart string string "string option"
  | ActionExecutionArgs string string
  | ActionExecutionEnd string
  | ActionExecutionResult string string string
  | AgentStateMessage string string string string bool string string bool
  | MetaEvent pyfield pyval

datatype RuntimeLifecycleEvent =
    RunStarted py_state
  | RunFinished py_state
  | RunError pyval
  | NodeStarted string py_state
  | NodeFinished string py_state

text \<open>\<open>Unknown t\<close> is a dict whose \<^verbatim>\<open>"type"\<close> is the value \<open>t\<close>, not a member of the enum.\<close>

datatype RuntimeEvent =
    Protocol RuntimeProtocolEvent
  | Lifecycle RuntimeLifecycleEvent
  | Unknown pyval

text \<open>The constructor functions of protocol.py (keyword arguments in declaration order).\<close>

definition text_message_start :: "string \<Rightarrow> string option \<Rightarrow> RuntimeProtocolEvent" where
  "text_message_start message_id parent_message_id =
     TextMessageStart message_id parent_message_id"

definition text_message_content :: "string \<Rightarrow> string \<Rightarrow> RuntimeProtocolEvent" where
  "text_message_content message_id content = TextMessageContent message_id content"

definition text_message_end :: "string \<Rightarrow> RuntimeProtocolEvent" where
  "text_message_end message_id = TextMessageEnd message_id"

definition action_execution_start ::
  "string \<Rightarrow> string \<Rightarrow> string option \<Rightarrow> RuntimeProtocolEvent" where
  "action_execution_start action_execution_id action_name parent_message_id =
     ActionExecutionStart action_execution_id action_name parent_message_id"

definition action_execution_args :: "string \<Rightarrow> string \<Rightarrow> RuntimeProtocolEvent" where
  "action_execution_args action_execution_id args =
     ActionExecutionArgs action_execution_id args"

definition action_execution_end :: "string \<Rightarrow> RuntimeProtocolEvent" where
  "action_execution_end action_execution_id = ActionExecutionEnd action_execution_id"

definition action_execution_result :: "string \<Rightarrow> string \<Rightarrow> string \<Rightarrow> RuntimeProtocolEvent" where
  "action_execution_result action_name action_execution_id result =
     ActionExecutionResult action_name action_execution_id result"

definition agent_state_message ::
  "string \<Rightarrow> string \<Rightarrow> string \<Rightarrow> string \<Rightarrow> bool \<Rightarrow> string \<Rightarrow> string \<Rightarrow> bool
     \<Rightarrow> RuntimeProtocolEvent" where
  "agent_state_message thread_id agent_name node_name run_id active role state running =
     AgentStateMessage thread_id agent_name node_name run_id active role state running"

definition meta_event :: "RuntimeMetaEventName \<Rightarrow> pyval \<Rightarrow> RuntimeProtocolEvent" where
  "meta_event name v = MetaEvent (NameEnum name) v"

text \<open>The dict each event is at run time: the keys of the constructor, in its order.\<close>

fun to_dict :: "RuntimeProtocolEvent \<Rightarrow> event_dict" where
  "to_dict (TextMessageStart message_id parent_message_id) =
     [(''type'', TypeEnum TEXT_MESSAGE_START),
      (''messageId'', Val (PStr message_id)),
      (''parentMessageId'', Val (py_of_opt parent_message_id))]"
| "to_dict (TextMessageContent message_id content) =
     [(''type'', TypeEnum TEXT_MESSAGE_CONTENT),
      (''messageId'', Val (PStr message_id)),
      (''content'', Val (PStr content))]"
| "to_dict (TextMessageEnd message_id) =
     [(''type'', TypeEnum TEXT_MESSAGE_END),
      (''messageId'', Val (PStr message_id))]"
| "to_dict (ActionExecutionStart action_execution_id action_name parent_message_id) =
     [(''type'', TypeEnum ACTION_EXECUTION_START),
      (''actionExecutionId'', Val (PStr action_execution_id)),
      (''actionName'', Val (PStr action_name)),
      (''parentMessageId'', Val (py_of_opt parent_message_id))]"
| "to_dict (ActionExecutionArgs action_execution_id args) =
     [(''type'', TypeEnum ACTION_EXECUTION_ARGS),
      (''actionExecutionId'', Val (PStr action_execution_id)),
      (''args'', Val (PStr args))]"
| "to_dict (ActionExecutionEnd action_execution_id) =
     [(''type'', TypeEnum ACTION_EXECUTION_END),
      (''actionExecutionId'', Val (PStr action_execution_id))]"
| "to_dict (ActionExecutionResult action_name action_execution_id result) =
     [(''type'', TypeEnum ACTION_EXECUTION_RESULT),
      (''actionName'', Val (PStr action_name)),
      (''actionExecutionId'', Val (PStr action_execution_id)),
      (''result'', Val (PStr result))]"
| "to_dict (AgentStateMessage thread_id agent_name node_name run_id active role state running) =
     [(''type'', TypeEnum AGENT_STATE_MESSAGE),
      (''threadId'', Val (PStr thread_id)),
      (''agentName'', Val (PStr agent_name)),
      (''nodeName'', Val (PStr node_name)),
      (''runId'', Val (PStr run_id)),
      (''active'', Val (PBool active)),
      (''role'', Val (PStr role)),
      (''state'', Val (PStr state)),
      (''running'', Val (PBool running))]"
| "to_dict (MetaEvent name v) =
     [(''type'', TypeEnum META_EVENT),
      (''name'', name),
      (''value'', Val v)]"

text \<open>\<^verbatim>\<open>event["type"]\<close>.\<close>

fun event_type :: "RuntimeEvent \<Rightarrow> pyfield" where
  "event_type (Protocol e) = (case map_of (to_dict e) ''type'' of Some t \<Rightarrow> t | None \<Rightarrow> Val PNone)"
| "event_type (Lifecycle (RunStarted _)) = TypeEnum RUN_STARTED"
| "event_type (Lifecycle (RunFinished _)) = TypeEnum RUN_FINISHED"
| "event_type (Lifecycle (RunError _)) = TypeEnum RUN_ERROR"
| "event_type (Lifecycle (NodeStarted _ _)) = TypeEnum NODE_STARTED"
| "event_type (Lifecycle (NodeFinished _ _)) = TypeEnum NODE_FINISHED"
| "event_type (Unknown t) = Val t"

section \<open>Serializer (copilotkit/protocol.py)\<close>

text \<open>\<^verbatim>\<open>"sep".join(parts)\<close>.\<close>

fun str_join :: "string \<Rightarrow> string list \<Rightarrow> string" where
  "str_join sep [] = []"
| "str_join sep [x] = x"
| "str_join sep (x # y # ys) = x @ sep @ str_join sep (y # ys)"

text \<open>The inner function of \<^verbatim>\<open>emit_runtime_events\<close>: every top-level enum member is
  replaced by its \<^verbatim>\<open>.value\<close>. (Its other branch, for an event that is not a dict, is
  excluded by the type of the argument.)\<close>

definition serialize_field :: "pyfield \<Rightarrow> pyval" where
  "serialize_field v =
     (case v of
        Val x \<Rightarrow> x
      | TypeEnum t \<Rightarrow> PStr (RuntimeEventTypes_value t)
      | NameEnum n \<Rightarrow> PStr (RuntimeMetaEventName_value n))"

definition serialize_event :: "event_dict \<Rightarrow> pydict" where
  "serialize_event event = map (\<lambda>(k, v). (k, serialize_field v)) event"

definition emit_runtime_events :: "event_dict list \<Rightarrow> string" where
  "emit_runtime_events events =
     str_join [CHR 0x0A] (map (\<lambda>event. json_dumps (PDict (serialize_event event))) events)
       @ [CHR 0x0A]"

definition emit_runtime_event :: "event_dict \<Rightarrow> string" where
  "emit_runtime_event event = emit_runtime_events [event]"

section \<open>Run loop (copilotkit/runloop.py)\<close>

record CopilotKitRunExecution =
  thread_id :: string
  agent_name :: string
  run_id :: string
  should_exit :: pyval
  node_name :: string
  is_finished :: bool
  predict_state_configuration :: pyval
  predicted_state :: pydict
  argument_buffer :: string
  current_tool_call :: "string option"
  state :: py_state

definition to_dict_if_pydantic :: "py_state \<Rightarrow> pydict" where
  "to_dict_if_pydantic obj = (case obj of StateModel d \<Rightarrow> d | StateDict d \<Rightarrow> d)"

definition filter_state :: "py_state \<Rightarrow> string list option \<Rightarrow> pydict" where
  "filter_state st exclude_keys =
     (let d = to_dict_if_pydantic st;
          excl = (case exclude_keys of
                    None \<Rightarrow> [''messages'', ''id'']
                  | Some [] \<Rightarrow> [''messages'', ''id'']
                  | Some ks \<Rightarrow> ks)
      in filter (\<lambda>(k, v). k \<notin> set excl) d)"

subsection \<open>State predictor\<close>

text \<open>
  The partial parser is the library class \<^verbatim>\<open>partialjson.json_parser.JSONParser\<close>, which
  is not part of the repository: \<open>parse\<close> below stands for
  \<^verbatim>\<open>PartialJSONParser().parse\<close>, with \<open>None\<close> for a call that raises.
\<close>

type_synonym partial_parser = "string \<Rightarrow> pyval option"

text \<open>\<^verbatim>\<open>[config.get("tool_name") for config in configuration.values()]\<close>, over the values.\<close>

fun tool_names_of :: "pyval list \<Rightarrow> py_error + pyval list" where
  "tool_names_of [] = Inr []"
| "tool_names_of (config # rest) =
     (case py_get config ''tool_name'' of
        Inl e \<Rightarrow> Inl e
      | Inr n \<Rightarrow> (case tool_names_of rest of Inl e \<Rightarrow> Inl e | Inr ns \<Rightarrow> Inr (n # ns)))"

text \<open>The loop over \<^verbatim>\<open>predict_state_configuration.items()\<close>, threading
  \<^verbatim>\<open>execution["predicted_state"]\<close> and \<^verbatim>\<open>emit_update\<close>. The dict is updated in place,
  so an exception leaves it as the iterations before have made it.\<close>

fun predict_loop ::
  "pydict \<Rightarrow> string option \<Rightarrow> pyval \<Rightarrow> pydict \<Rightarrow> bool
     \<Rightarrow> (py_error \<times> pydict) + (pydict \<times> bool)" where
  "predict_loop [] tool current_arguments predicted emit_update = Inr (predicted, emit_update)"
| "predict_loop ((k, v) # rest) tool current_arguments predicted emit_update =
     (case py_getitem v ''tool_name'' of
        Inl e \<Rightarrow> Inl (e, predicted)
      | Inr tool_name \<Rightarrow>
          if tool_name = py_of_opt tool then
            (case py_get v ''tool_argument'' of
               Inl e \<Rightarrow> Inl (e, predicted)
             | Inr tool_argument \<Rightarrow>
                 if tool_argument \<noteq> PNone then
                   (case py_get_val current_arguments tool_argument of
                      Inl e \<Rightarrow> Inl (e, predicted)
                    | Inr argument_value \<Rightarrow>
                        if argument_value \<noteq> PNone
                        then predict_loop rest tool current_arguments
                               (dict_set predicted k argument_value) True
                        else predict_loop rest tool current_arguments predicted emit_update)
                 else predict_loop rest tool current_arguments
                        (dict_set predicted k current_arguments) True)
          else predict_loop rest tool current_arguments predicted emit_update)"

definition predict_state ::
  "partial_parser \<Rightarrow> string \<Rightarrow> string \<Rightarrow> string \<Rightarrow> RuntimeProtocolEvent
     \<Rightarrow> CopilotKitRunExecution
     \<Rightarrow> (py_error \<times> CopilotKitRunExecution)
         + (RuntimeProtocolEvent option \<times> CopilotKitRunExecution)" where
  "predict_state parse thread agent run event execution =
     (case event of
        ActionExecutionStart _ action_name _ \<Rightarrow>
          Inr (None, execution\<lparr>current_tool_call := Some action_name, argument_buffer := []\<rparr>)
      | ActionExecutionArgs _ args \<Rightarrow>
          (let ex1 = execution\<lparr>argument_buffer := argument_buffer execution @ args\<rparr> in
           case py_items (predict_state_configuration ex1) of
             Inl e \<Rightarrow> Inl (e, ex1)
           | Inr config \<Rightarrow>
               (case tool_names_of (map snd config) of
                  Inl e \<Rightarrow> Inl (e, ex1)
                | Inr tool_names \<Rightarrow>
                    if py_of_opt (current_tool_call ex1) \<notin> set tool_names then Inr (None, ex1)
                    else
                      (case parse (argument_buffer ex1) of
                         None \<Rightarrow> Inr (None, ex1)
                       | Some current_arguments \<Rightarrow>
                           (case predict_loop config (current_tool_call ex1) current_arguments
                                   (predicted_state ex1) False of
                              Inl (e, predicted) \<Rightarrow> Inl (e, ex1\<lparr>predicted_state := predicted\<rparr>)
                            | Inr (predicted, emit_update) \<Rightarrow>
                                (let ex2 = ex1\<lparr>predicted_state := predicted\<rparr> in
                                 if emit_update then
                                   Inr (Some (agent_state_message thread agent (node_name ex2)
                                          run True ''assistant''
                                          (json_dumps (PDict (filter_state
                                             (StateDict (dict_merge
                                                (to_dict_if_pydantic (state ex2))
                                                (predicted_state ex2))) None)))
                                          True), ex2)
                                 else Inr (None, ex2))))))
      | _ \<Rightarrow> Inr (None, execution))"

subsection \<open>Dispatcher\<close>

text \<open>
  \<^verbatim>\<open>handle_runtime_event\<close>: the text to send (or \<^verbatim>\<open>None\<close>) and the execution record as
  the call leaves it; when the call raises, the exception and the execution record as the
  call leaves it. The equation for \<^verbatim>\<open>MetaEvent\<close> stands first because equations are tried
  in turn and the second one is for the eight kinds of the first \<^verbatim>\<open>if\<close> of the source;
  the last equation is the implicit \<^verbatim>\<open>return None\<close> at the end of the function body.
  What the \<^verbatim>\<open>RunError\<close> branch prints goes to standard output and is no part of the
  result.
\<close>

fun handle_runtime_event ::
  "partial_parser \<Rightarrow> RuntimeEvent \<Rightarrow> CopilotKitRunExecution
     \<Rightarrow> (py_error \<times> CopilotKitRunExecution) + (string option \<times> CopilotKitRunExecution)" where
  "handle_runtime_event parse (Protocol (MetaEvent name v)) execution =
     (if name = NameEnum PREDICT_STATE
        then Inr (None, execution\<lparr>predict_state_configuration := v\<rparr>)
      else if name = NameEnum EXIT
        then Inr (None, execution\<lparr>should_exit := v\<rparr>)
      else Inr (None, execution))"
| "handle_runtime_event parse (Protocol event) execution =
     (if event_type (Protocol event) \<in>
           {TypeEnum ACTION_EXECUTION_START, TypeEnum ACTION_EXECUTION_ARGS}
      then
        (case predict_state parse (thread_id execution) (agent_name execution)
                (run_id execution) event execution of
           Inl e \<Rightarrow> Inl e
         | Inr (None, ex') \<Rightarrow> Inr (Some (emit_runtime_events [to_dict event]), ex')
         | Inr (Some message, ex') \<Rightarrow>
             Inr (Some (emit_runtime_events [to_dict event, to_dict message]), ex'))
      else Inr (Some (emit_runtime_events [to_dict event]), execution))"
| "handle_runtime_event parse (Lifecycle (RunStarted st)) execution =
     Inr (None, execution\<lparr>state := st\<rparr>)"
| "handle_runtime_event parse (Lifecycle (NodeStarted name st)) execution =
     (let ex' = execution\<lparr>node_name := name, state := st\<rparr> in
      Inr (Some (emit_runtime_event (to_dict
             (agent_state_message (thread_id ex') (agent_name ex') (node_name ex') (run_id ex')
                True ''assistant'' (json_dumps (PDict (filter_state (state ex') None))) True))),
           ex'))"
| "handle_runtime_event parse (Lifecycle (NodeFinished name st)) execution =
     (let ex' = execution\<lparr>predict_state_configuration := PDict [], current_tool_call := None,
                           argument_buffer := [], predicted_state := [], state := st\<rparr> in
      Inr (Some (emit_runtime_event (to_dict
             (agent_state_message (thread_id ex') (agent_name ex') (node_name ex') (run_id ex')
                False ''assistant'' (json_dumps (PDict (filter_state (state ex') None))) True))),
           ex'))"
| "handle_runtime_event parse (Lifecycle (RunFinished st)) execution =
     Inr (None, execution\<lparr>is_finished := True\<rparr>)"
| "handle_runtime_event parse (Lifecycle (RunError error_info)) execution =
     Inr (None, execution\<lparr>is_finished := True\<rparr>)"
| "handle_runtime_event parse (Unknown t) execution = Inr (None, execution)"

subsection \<open>Run loop\<close>

text \<open>
  \<^verbatim>\<open>copilotkit_run\<close>, on the events the producer task puts on the queue, in queue order.
  The result is what the generator yields, how it ends, and the execution record.
  \<open>Waiting\<close>: the queue is empty and the run is not finished, so \<^verbatim>\<open>local_queue.get()\<close>
  does not return. \<open>Completed\<close>: the loop left through \<^verbatim>\<open>break\<close>. \<open>Raised e\<close>: the
  dispatcher raised and the generator ends with that exception.
\<close>

datatype run_end = Completed | Waiting | Raised py_error

fun copilotkit_run ::
  "partial_parser \<Rightarrow> RuntimeEvent list \<Rightarrow> CopilotKitRunExecution
     \<Rightarrow> string list \<times> run_end \<times> CopilotKitRunExecution" where
  "copilotkit_run parse [] execution = ([], Waiting, execution)"
| "copilotkit_run parse (event # queue) execution =
     (case handle_runtime_event parse event execution of
        Inl (e, ex') \<Rightarrow> ([], Raised e, ex')
      | Inr (json_lines, ex') \<Rightarrow>
          (let yielded = (case json_lines of None \<Rightarrow> [] | Some text \<Rightarrow> [text]) in
           if is_finished ex' then (yielded, Completed, ex')
           else (case copilotkit_run parse queue ex' of
                   (later, how, ex'') \<Rightarrow> (yielded @ later, how, ex''))))"

section \<open>Auxiliary definitions for the statements\<close>

text \<open>The execution record of the docstring example of \<^verbatim>\<open>copilotkit_run\<close>.\<close>

definition example_execution :: CopilotKitRunExecution where
  "example_execution =
     \<lparr>thread_id = ''thread_1'', agent_name = ''assistant'', run_id = ''run_1'',
      should_exit = PBool False, node_name = [], is_finished = False,
      predict_state_configuration = PDict [], predicted_state = [], argument_buffer = [],
      current_tool_call = None, state = StateDict []\<rparr>"

text \<open>After the events \<open>es\<close>, the name carried by the most recent \<^verbatim>\<open>NodeStarted\<close> event,
  or the initial name \<open>n\<close> when there is none.\<close>

fun last_node_started :: "string \<Rightarrow> RuntimeEvent list \<Rightarrow> string" where
  "last_node_started n [] = n"
| "last_node_started n (Lifecycle (NodeStarted m _) # es) = last_node_started m es"
| "last_node_started n (_ # es) = last_node_started n es"

text \<open>The line of one event: what \<^verbatim>\<open>json.dumps(serialize_event(event))\<close> returns.\<close>

definition json_line :: "RuntimeProtocolEvent \<Rightarrow> string" where
  "json_line e = json_dumps (PDict (serialize_event (to_dict e)))"


text \<open>A text between double quotes, for writing expected lines.\<close>

definition quoted :: "string \<Rightarrow> string" where
  "quoted s = CHR 0x22 # s @ [CHR 0x22]"

text \<open>The configuration \<^verbatim>\<open>{"name": {"tool_name": "update_user", "tool_argument": "name"}}\<close>.\<close>

definition scenario_configuration :: pyval where
  "scenario_configuration =
     PDict [(''name'', PDict [(''tool_name'', PStr ''update_user''),
                              (''tool_argument'', PStr ''name'')])]"

definition node_name_events :: "RuntimeEvent list" where
  "node_name_events =
     [Lifecycle (NodeStarted ''agent_node'' (StateDict [])),
      Protocol (TextMessageEnd ''m1'')]"

text \<open>The producer of the first scenario: three text events, then \<^verbatim>\<open>RunFinished({})\<close>.\<close>

definition text_scenario :: "RuntimeEvent list" where
  "text_scenario =
     [Protocol (text_message_start ''m1'' None),
      Protocol (text_message_content ''m1'' ''Hi''),
      Protocol (text_message_end ''m1''),
      Lifecycle (RunFinished (StateDict []))]"

definition scenario_execution :: CopilotKitRunExecution where
  "scenario_execution = example_execution\<lparr>predict_state_configuration := scenario_configuration\<rparr>"

section \<open>The partial JSON parser\<close>

text \<open>
  Modelled from the spec: \<^verbatim>\<open>PartialJSONParser\<close> is the class
  \<^verbatim>\<open>partialjson.json_parser.JSONParser\<close> of a third-party package; its source is not
  in the repository. Section 4.3 of the specification describes it as a tolerant partial
  parse of the argument buffer as JSON that accepts syntactically incomplete input
  (unterminated strings, unclosed braces and arrays), returns the partial object implied
  by the well-formed prefix, and returns nothing on an unrecoverable failure. The
  definitions of this section follow that description: a text that is complete JSON is
  decoded as JSON; otherwise a recursive-descent parser reads as far as the text goes,
  takes an unterminated string up to the end of the text, closes an open array or object
  at the end of the text, gives a key without a value the value \<^verbatim>\<open>None\<close>, and fails on
  anything else it does not expect. Numbers with a fraction or an exponent and characters
  beyond code point 255 are outside the model (the parsers fail on them).
\<close>

definition is_ws :: "char \<Rightarrow> bool" where
  "is_ws c = (c = CHR '' '' \<or> c = CHR 0x09 \<or> c = CHR 0x0A \<or> c = CHR 0x0D)"

definition skip_ws :: "string \<Rightarrow> string" where
  "skip_ws s = dropWhile is_ws s"

definition is_digit :: "char \<Rightarrow> bool" where
  "is_digit c = (c \<in> set ''0123456789'')"

text \<open>The value of a run of decimal digits, and of four hexadecimal digits.\<close>

definition nat_of_digits :: "string \<Rightarrow> nat" where
  "nat_of_digits ds = foldl (\<lambda>n c. 10 * n + (of_char c - 48)) 0 ds"

definition hex_value :: "char \<Rightarrow> nat option" where
  "hex_value c =
     (if c \<in> set ''0123456789'' then Some (of_char c - 48)
      else if c \<in> set ''abcdef'' then Some (of_char c - 87)
      else if c \<in> set ''ABCDEF'' then Some (of_char c - 55)
      else None)"

definition hex4 :: "char \<Rightarrow> char \<Rightarrow> char \<Rightarrow> char \<Rightarrow> nat option" where
  "hex4 a b c d =
     (case (hex_value a, hex_value b, hex_value c, hex_value d) of
        (Some w, Some x, Some y, Some z) \<Rightarrow> Some (((w * 16 + x) * 16 + y) * 16 + z)
      | _ \<Rightarrow> None)"

text \<open>The character a one-letter escape stands for.\<close>

definition unescape :: "char \<Rightarrow> char option" where
  "unescape e =
     (if e = CHR 0x22 then Some (CHR 0x22)
      else if e = CHR 0x5C then Some (CHR 0x5C)
      else if e = CHR ''/'' then Some (CHR ''/'')
      else if e = CHR ''b'' then Some (CHR 0x08)
      else if e = CHR ''f'' then Some (CHR 0x0C)
      else if e = CHR ''n'' then Some (CHR 0x0A)
      else if e = CHR ''r'' then Some (CHR 0x0D)
      else if e = CHR ''t'' then Some (CHR 0x09)
      else None)"

text \<open>A JSON string after its opening quote: the decoded text and what follows the
  closing quote. A raw control character, a bad escape and a missing closing quote are
  errors.\<close>

fun scan_string :: "string \<Rightarrow> (string \<times> string) option" where
  "scan_string [] = None"
| "scan_string (c # cs) =
     (if c = CHR 0x22 then Some ([], cs)
      else if c = CHR 0x5C then
        (case cs of
           [] \<Rightarrow> None
         | e # r \<Rightarrow>
             if e = CHR ''u'' then
               (case r of
                  h1 # h2 # h3 # h4 # r' \<Rightarrow>
                    (case hex4 h1 h2 h3 h4 of
                       None \<Rightarrow> None
                     | Some n \<Rightarrow>
                         if n < 256 then
                           (case scan_string r' of
                              None \<Rightarrow> None
                            | Some (t, rest) \<Rightarrow> Some (char_of n # t, rest))
                         else None)
                | _ \<Rightarrow> None)
             else
               (case unescape e of
                  None \<Rightarrow> None
                | Some x \<Rightarrow>
                    (case scan_string r of
                       None \<Rightarrow> None
                     | Some (t, rest) \<Rightarrow> Some (x # t, rest))))
      else if of_char c < (32::nat) then None
      else (case scan_string cs of
              None \<Rightarrow> None
            | Some (t, rest) \<Rightarrow> Some (c # t, rest)))"

text \<open>A JSON integer: an optional minus sign and digits without a leading zero.\<close>

definition scan_int :: "string \<Rightarrow> (int \<times> string) option" where
  "scan_int s =
     (let neg = (s \<noteq> [] \<and> hd s = CHR ''-'');
          s1 = (if neg then tl s else s);
          ds = takeWhile is_digit s1;
          rest = dropWhile is_digit s1
      in if ds = [] then None
         else if hd ds = CHR ''0'' \<and> 1 < length ds then None
         else if rest \<noteq> [] \<and> hd rest \<in> set ''.eE'' then None
         else Some (if neg then - int (nat_of_digits ds) else int (nat_of_digits ds), rest))"

definition literal :: "string \<Rightarrow> string \<Rightarrow> string option" where
  "literal w s = (if take (length w) s = w then Some (drop (length w) s) else None)"

text \<open>Complete JSON (\<^verbatim>\<open>json.loads\<close>). The first argument bounds the number of nested
  calls; twice the length of the text and two more is never reached, since every call
  consumes a character.\<close>

fun loads_value :: "nat \<Rightarrow> string \<Rightarrow> (pyval \<times> string) option"
  and loads_elems :: "nat \<Rightarrow> string \<Rightarrow> pyval list \<Rightarrow> (pyval list \<times> string) option"
  and loads_items :: "nat \<Rightarrow> string \<Rightarrow> pydict \<Rightarrow> (pydict \<times> string) option" where
  "loads_value 0 s = None"
| "loads_value (Suc n) s =
     (case s of
        [] \<Rightarrow> None
      | c # cs \<Rightarrow>
          if c = CHR 0x22 then
            (case scan_string cs of None \<Rightarrow> None | Some (t, r) \<Rightarrow> Some (PStr t, r))
          else if c = CHR ''{'' then
            (case skip_ws cs of
               [] \<Rightarrow> None
             | c' # r \<Rightarrow>
                 if c' = CHR ''}'' then Some (PDict [], r)
                 else (case loads_items n (c' # r) [] of
                         None \<Rightarrow> None
                       | Some (d, r') \<Rightarrow> Some (PDict d, r')))
          else if c = CHR ''['' then
            (case skip_ws cs of
               [] \<Rightarrow> None
             | c' # r \<Rightarrow>
                 if c' = CHR '']'' then Some (PList [], r)
                 else (case loads_elems n (c' # r) [] of
                         None \<Rightarrow> None
                       | Some (xs, r') \<Rightarrow> Some (PList xs, r')))
          else if c = CHR ''n'' then
            (case literal ''null'' s of None \<Rightarrow> None | Some r \<Rightarrow> Some (PNone, r))
          else if c = CHR ''t'' then
            (case literal ''true'' s of None \<Rightarrow> None | Some r \<Rightarrow> Some (PBool True, r))
          else if c = CHR ''f'' then
            (case literal ''false'' s of None \<Rightarrow> None | Some r \<Rightarrow> Some (PBool False, r))
          else (case scan_int s of None \<Rightarrow> None | Some (i, r) \<Rightarrow> Some (PInt i, r)))"
| "loads_elems 0 s acc = None"
| "loads_elems (Suc n) s acc =
     (case loads_value n s of
        None \<Rightarrow> None
      | Some (v, r) \<Rightarrow>
          (case skip_ws r of
             [] \<Rightarrow> None
           | c # r' \<Rightarrow>
               if c = CHR '','' then loads_elems n (skip_ws r') (acc @ [v])
               else if c = CHR '']'' then Some (acc @ [v], r')
               else None))"
| "loads_items 0 s acc = None"
| "loads_items (Suc n) s acc =
     (case s of
        [] \<Rightarrow> None
      | q # cs \<Rightarrow>
          if q \<noteq> CHR 0x22 then None
          else
            (case scan_string cs of
               None \<Rightarrow> None
             | Some (k, r) \<Rightarrow>
                 (case skip_ws r of
                    [] \<Rightarrow> None
                  | c # r' \<Rightarrow>
                      if c \<noteq> CHR '':'' then None
                      else
                        (case loads_value n (skip_ws r') of
                           None \<Rightarrow> None
                         | Some (v, r'') \<Rightarrow>
                             (case skip_ws r'' of
                                [] \<Rightarrow> None
                              | c' # r''' \<Rightarrow>
                                  if c' = CHR '','' then
                                    loads_items n (skip_ws r''') (dict_set acc k v)
                                  else if c' = CHR ''}'' then Some (dict_set acc k v, r''')
                                  else None)))))"

definition json_loads :: "string \<Rightarrow> pyval option" where
  "json_loads s =
     (case loads_value (2 * length s + 2) (skip_ws s) of
        None \<Rightarrow> None
      | Some (v, r) \<Rightarrow> if skip_ws r = [] then Some v else None)"

text \<open>The tolerant parser. A string ends at the first double quote that does not
  follow a backslash; without one, the string is the rest of the text as it stands.\<close>

fun closing_quote :: "char \<Rightarrow> string \<Rightarrow> (string \<times> string) option" where
  "closing_quote prev [] = None"
| "closing_quote prev (c # cs) =
     (if c = CHR 0x22 \<and> prev \<noteq> CHR 0x5C then Some ([], cs)
      else (case closing_quote c cs of
              None \<Rightarrow> None
            | Some (body, rest) \<Rightarrow> Some (c # body, rest)))"

definition parse_string :: "string \<Rightarrow> (pyval \<times> string) option" where
  "parse_string body =
     (case closing_quote (CHR 0x22) body of
        None \<Rightarrow> Some (PStr body, [])
      | Some (b, rest) \<Rightarrow>
          (case scan_string (b @ [CHR 0x22]) of
             Some (t, []) \<Rightarrow> Some (PStr t, rest)
           | _ \<Rightarrow> None))"

text \<open>A run of digits, dots and minus signs: a run that ends in a dot or a minus sign
  is incomplete and is returned as text.\<close>

definition parse_number :: "string \<Rightarrow> (pyval \<times> string) option" where
  "parse_number s =
     (let num_str = takeWhile (\<lambda>c. c \<in> set ''0123456789.-'') s;
          rest = dropWhile (\<lambda>c. c \<in> set ''0123456789.-'') s;
          ds = (if num_str \<noteq> [] \<and> hd num_str = CHR ''-'' then tl num_str else num_str)
      in if num_str = [] \<or> last num_str = CHR ''.'' \<or> last num_str = CHR ''-''
           then Some (PStr num_str, [])
         else if list_all is_digit ds
           then Some (PInt (if ds = num_str then int (nat_of_digits ds)
                            else - int (nat_of_digits ds)), rest)
         else None)"

fun parse_any :: "nat \<Rightarrow> string \<Rightarrow> (pyval \<times> string) option"
  and parse_array :: "nat \<Rightarrow> string \<Rightarrow> pyval list \<Rightarrow> (pyval list \<times> string) option"
  and parse_object :: "nat \<Rightarrow> string \<Rightarrow> pydict \<Rightarrow> (pydict \<times> string) option" where
  "parse_any 0 s = None"
| "parse_any (Suc n) s =
     (case s of
        [] \<Rightarrow> None
      | c # cs \<Rightarrow>
          if is_ws c then parse_any n (skip_ws s)
          else if c = CHR ''['' then
            (case parse_array n (skip_ws cs) [] of
               None \<Rightarrow> None
             | Some (xs, r) \<Rightarrow> Some (PList xs, r))
          else if c = CHR ''{'' then
            (case parse_object n (skip_ws cs) [] of
               None \<Rightarrow> None
             | Some (d, r) \<Rightarrow> Some (PDict d, r))
          else if c = CHR 0x22 then parse_string cs
          else if c = CHR ''t'' then Some (PBool True, drop 4 s)
          else if c = CHR ''f'' then Some (PBool False, drop 5 s)
          else if c = CHR ''n'' then Some (PNone, drop 4 s)
          else if c \<in> set ''0123456789.-'' then parse_number s
          else None)"
| "parse_array 0 s acc = None"
| "parse_array (Suc n) s acc =
     (case s of
        [] \<Rightarrow> Some (acc, [])
      | c # cs \<Rightarrow>
          if c = CHR '']'' then Some (acc, cs)
          else
            (case parse_any n s of
               None \<Rightarrow> None
             | Some (res, s1) \<Rightarrow>
                 (case skip_ws s1 of
                    [] \<Rightarrow> parse_array n [] (acc @ [res])
                  | c2 # r2 \<Rightarrow>
                      if c2 = CHR '','' then parse_array n (skip_ws r2) (acc @ [res])
                      else parse_array n (c2 # r2) (acc @ [res]))))"
| "parse_object 0 s acc = None"
| "parse_object (Suc n) s acc =
     (case s of
        [] \<Rightarrow> Some (acc, [])
      | c # cs \<Rightarrow>
          if c = CHR ''}'' then Some (acc, cs)
          else
            (case parse_any n s of
               Some (PStr k, s1) \<Rightarrow>
                 (case skip_ws s1 of
                    [] \<Rightarrow> Some (dict_set acc k PNone, [])
                  | c2 # r2 \<Rightarrow>
                      if c2 = CHR ''}'' then Some (dict_set acc k PNone, c2 # r2)
                      else if c2 \<noteq> CHR '':'' then None
                      else
                        (case skip_ws r2 of
                           [] \<Rightarrow> Some (dict_set acc k PNone, [])
                         | c3 # r3 \<Rightarrow>
                             if c3 = CHR '','' then Some (dict_set acc k PNone, r3)
                             else if c3 = CHR ''}'' then Some (dict_set acc k PNone, c3 # r3)
                             else
                               (case parse_any n (c3 # r3) of
                                  None \<Rightarrow> None
                                | Some (v, s4) \<Rightarrow>
                                    (case skip_ws s4 of
                                       [] \<Rightarrow> parse_object n [] (dict_set acc k v)
                                     | c5 # r5 \<Rightarrow>
                                         if c5 = CHR '','' then
                                           parse_object n (skip_ws r5) (dict_set acc k v)
                                         else parse_object n (c5 # r5) (dict_set acc k v)))))
             | _ \<Rightarrow> None))"

text \<open>
  Modelled from the spec: \<^verbatim>\<open>PartialJSONParser().parse(s)\<close>, the tolerant partial parse of
  section 4.3, whose code (the third-party package partialjson) is not in the repository.
  \<open>None\<close> stands for a call that raises. The empty text gives the empty object; a text
  that is complete JSON gives its value; any other text goes to the tolerant parser, and
  what that parser leaves unread is dropped.
\<close>

definition partial_json_parse :: partial_parser where
  "partial_json_parse s =
     (if s = [] then Some (PDict [])
      else
        (case json_loads s of
           Some v \<Rightarrow> Some v
         | None \<Rightarrow>
             (case parse_any (2 * length s + 2) s of
                None \<Rightarrow> None
              | Some (data, remaining) \<Rightarrow> Some data)))"

text \<open>The two argument chunks of the second scenario, \<^verbatim>\<open>{"name": "Al\<close> and \<^verbatim>\<open>ice"}\<close>,
  and its producer.\<close>

definition scenario_chunk1 :: string where
  "scenario_chunk1 = ''{'' @ quoted ''name'' @ '': '' @ [CHR 0x22] @ ''Al''"

definition scenario_chunk2 :: string where
  "scenario_chunk2 = ''ice'' @ [CHR 0x22] @ ''}''"

definition prediction_scenario :: "RuntimeEvent list" where
  "prediction_scenario =
     [Protocol (action_execution_start ''exec1'' ''update_user'' None),
      Protocol (action_execution_args ''exec1'' scenario_chunk1),
      Protocol (action_execution_args ''exec1'' scenario_chunk2)]"




text \<open>The dict whose JSON text the predictor sends: the state merged with the predicted
  state, filtered.\<close>

definition snapshot_state :: "py_state \<Rightarrow> pydict \<Rightarrow> pydict" where
  "snapshot_state st predicted =
     filter_state (StateDict (dict_merge (to_dict_if_pydantic st) predicted)) None"

text \<open>The state of the docstring example of \<^verbatim>\<open>_filter_state\<close>.\<close>

definition docstring_state :: py_state where
  "docstring_state =
     StateDict [(''messages'', PList []), (''id'', PStr ''thread_123''),
                (''user_name'', PStr ''Alice''), (''user_email'', PStr ''alice@example.com'')]"

text \<open>An execution record in the middle of a call of the tool \<^verbatim>\<open>update_user\<close>.\<close>

definition prediction_execution :: CopilotKitRunExecution where
  "prediction_execution =
     scenario_execution\<lparr>current_tool_call := Some ''update_user'', state := docstring_state\<rparr>"

subsection \<open>Well-formed values\<close>

text \<open>What may follow a number without changing how it is read: anything but a digit,
  a dot or an exponent mark.\<close>

definition follow_ok :: "string \<Rightarrow> bool" where
  "follow_ok rest = (case rest of [] \<Rightarrow> True | c # cs \<Rightarrow> \<not> is_digit c \<and> c \<notin> set ''.eE'')"

text \<open>A value all of whose dicts have distinct keys, as every Python dict has.\<close>

fun wf_pyval :: "pyval \<Rightarrow> bool"
  and wf_elems :: "pyval list \<Rightarrow> bool"
  and wf_items :: "pydict \<Rightarrow> bool" where
  "wf_pyval (PList xs) = wf_elems xs"
| "wf_pyval (PDict d) = (distinct (map fst d) \<and> wf_items d)"
| "wf_pyval v = True"
| "wf_elems [] = True"
| "wf_elems (x # xs) = (wf_pyval x \<and> wf_elems xs)"
| "wf_items [] = True"
| "wf_items ((k, v) # d) = (wf_pyval v \<and> wf_items d)"

text \<open>The number of nested calls \<open>loads_value\<close> makes on the JSON text of a value.\<close>

fun need :: "pyval \<Rightarrow> nat"
  and need_elems :: "pyval list \<Rightarrow> nat"
  and need_items :: "pydict \<Rightarrow> nat" where
  "need (PList xs) = Suc (need_elems xs)"
| "need (PDict d) = Suc (need_items d)"
| "need v = Suc 0"
| "need_elems [] = 0"
| "need_elems (x # xs) = Suc (max (need x) (need_elems xs))"
| "need_items [] = 0"
| "need_items ((k, v) # d) = Suc (max (need v) (need_items d))"

text \<open>A text that starts with the first character of a JSON value.\<close>

definition starts_value :: "string \<Rightarrow> bool" where
  "starts_value s = (case s of [] \<Rightarrow> False | c # cs \<Rightarrow> \<not> is_ws c \<and> c \<noteq> CHR '']'' \<and> c \<noteq> CHR ''}'')"

section \<open>Auxiliary lemmas\<close>

lemma hex_digit_mem: "hex_digit n \<in> set ''0123456789abcdef''"
  unfolding hex_digit_def by (rule nth_mem) simp

lemma hex_digit_not_newline: "hex_digit n \<noteq> CHR 0x0A"
  using hex_digit_mem [of n] by auto

lemma escape_char_no_newline: "CHR 0x0A \<notin> set (escape_char c)"
  by (simp add: escape_char_def hex_digit_not_newline hex_digit_not_newline [symmetric])

lemma encode_basestring_ascii_no_newline: "CHR 0x0A \<notin> set (encode_basestring_ascii s)"
  by (auto simp: encode_basestring_ascii_def escape_char_no_newline)

lemma digit_mem: "n < 10 \<Longrightarrow> ''0123456789'' ! n \<in> set ''0123456789''"
  by (rule nth_mem) simp

lemma digit_not_newline: "n < 10 \<Longrightarrow> ''0123456789'' ! n \<noteq> CHR 0x0A"
  using digit_mem [of n] by auto

lemma nat_digits_no_newline: "CHR 0x0A \<notin> set (nat_digits n)"
proof (induction n rule: nat_digits.induct)
  case (1 n)
  show ?case
  proof (cases "n < 10")
    case True
    then show ?thesis using digit_not_newline [of n] by (subst nat_digits.simps) auto
  next
    case False
    have "n mod 10 < 10" by simp
    then have "''0123456789'' ! (n mod 10) \<noteq> CHR 0x0A" by (rule digit_not_newline)
    with False 1 show ?thesis by (subst nat_digits.simps) auto
  qed
qed

lemma int_repr_no_newline: "CHR 0x0A \<notin> set (int_repr i)"
  by (simp add: int_repr_def nat_digits_no_newline del: nat_digits.simps)

lemma json_dumps_no_newline:
  "CHR 0x0A \<notin> set (json_dumps v)"
  "CHR 0x0A \<notin> set (dumps_elems xs)"
  "CHR 0x0A \<notin> set (dumps_items d)"
  by (induction v and xs and d rule: json_dumps_dumps_elems_dumps_items.induct)
     (simp_all add: int_repr_no_newline encode_basestring_ascii_no_newline)

lemma str_join_newline:
  "xs \<noteq> [] \<Longrightarrow> str_join [CHR 0x0A] xs @ [CHR 0x0A] = concat (map (\<lambda>x. x @ [CHR 0x0A]) xs)"
  by (induction "[CHR 0x0A]" xs rule: str_join.induct) simp_all

lemma emit_one: "emit_runtime_events [to_dict e] = json_line e @ [CHR 0x0A]"
  by (simp add: emit_runtime_events_def json_line_def)

lemma emit_two:
  "emit_runtime_events [to_dict e, to_dict m] = json_line e @ [CHR 0x0A] @ json_line m @ [CHR 0x0A]"
  by (simp add: emit_runtime_events_def json_line_def)






lemma handle_keeps_identity:
  assumes "handle_runtime_event parse ev ex = Inr (out, ex')"
  shows "thread_id ex' = thread_id ex \<and> agent_name ex' = agent_name ex
         \<and> run_id ex' = run_id ex \<and> node_name ex' = last_node_started (node_name ex) [ev]"
proof (cases ev)
  case (Protocol e)
  with assms show ?thesis
    by (cases e)
       (auto simp: predict_state_def Let_def
             split: sum.splits option.splits if_splits prod.splits)
next
  case (Lifecycle l)
  with assms show ?thesis by (cases l) (auto simp: Let_def)
next
  case (Unknown t)
  with assms show ?thesis by simp
qed

lemma last_node_started_Cons:
  "last_node_started n (ev # es) = last_node_started (last_node_started n [ev]) es"
  by (cases "(n, ev # es)" rule: last_node_started.cases) simp_all

lemma run_waiting_node_name:
  "copilotkit_run parse es ex = (outs, Waiting, ex') \<Longrightarrow>
   thread_id ex' = thread_id ex \<and> agent_name ex' = agent_name ex
   \<and> run_id ex' = run_id ex \<and> node_name ex' = last_node_started (node_name ex) es"
proof (induction es arbitrary: ex outs)
  case Nil
  then show ?case by simp
next
  case (Cons ev es)
  from Cons.prems obtain out ex1 where h: "handle_runtime_event parse ev ex = Inr (out, ex1)"
    by (cases "handle_runtime_event parse ev ex") auto
  from Cons.prems h have nf: "\<not> is_finished ex1" by (auto split: if_splits)
  obtain later how ex2 where rec: "copilotkit_run parse es ex1 = (later, how, ex2)"
    by (cases "copilotkit_run parse es ex1") auto
  with Cons.prems h nf have "how = Waiting" "ex2 = ex'" by simp_all
  with rec Cons.IH have "thread_id ex' = thread_id ex1 \<and> agent_name ex' = agent_name ex1
   \<and> run_id ex' = run_id ex1 \<and> node_name ex' = last_node_started (node_name ex1) es" by blast
  with handle_keeps_identity [OF h] show ?case
    by (simp add: last_node_started_Cons [of _ ev es] del: last_node_started.simps)
qed

lemma event_type_protocol:
  "event_type (Protocol (TextMessageStart a1 a2)) = TypeEnum TEXT_MESSAGE_START"
  "event_type (Protocol (TextMessageContent b1 b2)) = TypeEnum TEXT_MESSAGE_CONTENT"
  "event_type (Protocol (TextMessageEnd c1)) = TypeEnum TEXT_MESSAGE_END"
  "event_type (Protocol (ActionExecutionStart d1 d2 d3)) = TypeEnum ACTION_EXECUTION_START"
  "event_type (Protocol (ActionExecutionArgs e1 e2)) = TypeEnum ACTION_EXECUTION_ARGS"
  "event_type (Protocol (ActionExecutionEnd f1)) = TypeEnum ACTION_EXECUTION_END"
  "event_type (Protocol (ActionExecutionResult g1 g2 g3)) = TypeEnum ACTION_EXECUTION_RESULT"
  "event_type (Protocol (AgentStateMessage h1 h2 h3 h4 h5 h6 h7 h8)) = TypeEnum AGENT_STATE_MESSAGE"
  "event_type (Protocol (MetaEvent i1 i2)) = TypeEnum META_EVENT"
  by simp_all

lemma map_of_dict_set: "map_of (dict_set d k v) = (map_of d)(k \<mapsto> v)"
  by (induction d) (auto simp: fun_eq_iff)

lemma keys_dict_set: "fst ` set (dict_set d k v) = insert k (fst ` set d)"
proof (induction d)
  case Nil
  show ?case by simp
next
  case (Cons p d)
  obtain k' v' where p: "p = (k', v')" by (cases p)
  show ?case
  proof (cases "k' = k")
    case True
    then show ?thesis by (simp add: p)
  next
    case False
    then show ?thesis by (simp add: p Cons insert_commute)
  qed
qed

lemma distinct_dict_set:
  "distinct (map fst d) \<Longrightarrow> distinct (map fst (dict_set d k v))"
proof (induction d)
  case Nil
  show ?case by simp
next
  case (Cons p d)
  obtain k' v' where p: "p = (k', v')" by (cases p)
  from Cons have "distinct (map fst (dict_set d k v))" by simp
  moreover have "k' \<notin> fst ` set (dict_set d k v)" if "k' \<noteq> k"
    using that Cons.prems p by (simp add: keys_dict_set)
  ultimately show ?case using Cons.prems p by auto
qed

lemma distinct_map_of_rev_dict:
  "distinct (map fst d) \<Longrightarrow> map_of (rev d) = map_of (d :: pydict)"
proof -
  assume d: "distinct (map fst d)"
  then have "distinct (map fst (rev d))" by (simp only: rev_map [symmetric] distinct_rev)
  moreover have "set (rev d) = set d" by simp
  ultimately show ?thesis using d map_of_inject_set by blast
qed

lemma map_of_rev_dict_set:
  "distinct (map fst d) \<Longrightarrow> map_of (rev (dict_set d k v)) = (map_of d)(k \<mapsto> v)"
  by (simp add: distinct_map_of_rev_dict distinct_dict_set map_of_dict_set)

lemma foldl_dict_set_map_of:
  "map_of (foldl (\<lambda>d (k, v). dict_set d k v) acc xs) = map_of acc ++ map_of (rev xs)"
proof (induction xs arbitrary: acc)
  case Nil
  show ?case by simp
next
  case (Cons p xs)
  obtain k v where p: "p = (k, v)" by (cases p)
  show ?case
    by (simp add: Cons p map_of_dict_set fun_eq_iff map_add_def split: option.splits)
qed

lemma foldl_dict_set_distinct:
  "distinct (map fst acc) \<Longrightarrow> distinct (map fst (foldl (\<lambda>d (k, v). dict_set d k v) acc xs))"
  by (induction xs arbitrary: acc) (auto simp: distinct_dict_set)

lemma map_of_dict_merge: "map_of (dict_merge a b) = map_of (rev a) ++ map_of (rev b)"
  by (simp add: dict_merge_def foldl_dict_set_map_of)

lemma distinct_dict_merge: "distinct (map fst (dict_merge a b))"
  by (simp add: dict_merge_def foldl_dict_set_distinct)

lemma filter_state_keys:
  "fst ` set (filter_state st None) = fst ` set (to_dict_if_pydantic st) - {''messages'', ''id''}"
  by (auto simp: filter_state_def Let_def image_iff)

lemma filter_state_map_of:
  "map_of (filter_state st None) k
     = (if k = ''messages'' \<or> k = ''id'' then None else map_of (to_dict_if_pydantic st) k)"
proof -
  have "map_of (filter (\<lambda>(k, v). k \<notin> S) d) k = (if k \<in> S then None else map_of d k)"
    for d :: pydict and S
    by (induction d) auto
  from this [of "set [''messages'', ''id'']" "to_dict_if_pydantic st"]
  show ?thesis by (simp add: filter_state_def Let_def)
qed











lemma parse_chunk1: "partial_json_parse scenario_chunk1 = Some (PDict [(''name'', PStr ''Al'')])"
  by code_simp

lemma parse_chunk12:
  "partial_json_parse (scenario_chunk1 @ scenario_chunk2) = Some (PDict [(''name'', PStr ''Alice'')])"
  by code_simp

lemma snapshot_state_map_of:
  "map_of (snapshot_state st predicted) k
     = (if k = ''messages'' \<or> k = ''id'' then None
        else (map_of (rev (to_dict_if_pydantic st)) ++ map_of (rev predicted)) k)"
  by (simp add: snapshot_state_def filter_state_map_of map_of_dict_merge to_dict_if_pydantic_def)

lemma dumps_name:
  "json_dumps (PDict [(''name'', PStr ''Al'')]) = ''{'' @ quoted ''name'' @ '': '' @ quoted ''Al'' @ ''}''"
  "json_dumps (PDict [(''name'', PStr ''Alice'')])
     = ''{'' @ quoted ''name'' @ '': '' @ quoted ''Alice'' @ ''}''"
  by (simp_all add: encode_basestring_ascii_def escape_char_def quoted_def)

lemma snapshot_state_name:
  "snapshot_state (StateDict []) [(''name'', v)] = [(''name'', v)]"
  "filter_state (StateDict (dict_merge (to_dict_if_pydantic (StateDict [])) [(''name'', v)])) None
     = [(''name'', v)]"
  by (simp_all add: snapshot_state_def filter_state_def dict_merge_def to_dict_if_pydantic_def)

lemma predict_state_snapshot:
  assumes "predict_state parse t a r event ex = Inr (Some message, ex')"
  shows "message = agent_state_message t a (node_name ex') r True ''assistant''
           (json_dumps (PDict (filter_state
              (StateDict (dict_merge (to_dict_if_pydantic (state ex')) (predicted_state ex')))
              None))) True"
  using assms
  by (auto simp: predict_state_def Let_def
           split: RuntimeProtocolEvent.splits sum.splits if_splits option.splits prod.splits
           simp del: json_dumps.simps)

subsection \<open>Decoding the JSON text of a value gives the value back\<close>

declare nat_digits.simps [simp del]

lemma hex_value_hex_digit_cases:
  "hex_value (hex_digit 0) = Some 0" "hex_value (hex_digit 1) = Some 1"
  "hex_value (hex_digit 2) = Some 2" "hex_value (hex_digit 3) = Some 3"
  "hex_value (hex_digit 4) = Some 4" "hex_value (hex_digit 5) = Some 5"
  "hex_value (hex_digit 6) = Some 6" "hex_value (hex_digit 7) = Some 7"
  "hex_value (hex_digit 8) = Some 8" "hex_value (hex_digit 9) = Some 9"
  "hex_value (hex_digit 10) = Some 10" "hex_value (hex_digit 11) = Some 11"
  "hex_value (hex_digit 12) = Some 12" "hex_value (hex_digit 13) = Some 13"
  "hex_value (hex_digit 14) = Some 14" "hex_value (hex_digit 15) = Some 15"
  by code_simp+

lemma hex_value_hex_digit: "k < 16 \<Longrightarrow> hex_value (hex_digit k) = Some k"
proof -
  assume "k < 16"
  then have "k = 0 \<or> k = 1 \<or> k = 2 \<or> k = 3 \<or> k = 4 \<or> k = 5 \<or> k = 6 \<or> k = 7 \<or> k = 8
      \<or> k = 9 \<or> k = 10 \<or> k = 11 \<or> k = 12 \<or> k = 13 \<or> k = 14 \<or> k = 15"
    by arith
  then show ?thesis
    by (elim disjE) (simp_all only: hex_value_hex_digit_cases)
qed

lemma hex4_of_char:
  "hex4 CHR ''0'' CHR ''0'' (hex_digit (of_char c div 16)) (hex_digit (of_char c mod 16))
     = Some (of_char c)"
proof -
  have "(of_char c :: nat) < 16 * 16" using nat_of_char_less_256 [of c] by simp
  then have "(of_char c :: nat) div 16 < 16" by (rule less_mult_imp_div_less)
  then show ?thesis
    by (simp add: hex4_def hex_value_hex_digit) (simp add: hex_value_def)
qed

lemma scan_string_escape_char:
  "scan_string (escape_char c @ tail)
     = (case scan_string tail of None \<Rightarrow> None | Some (t, r) \<Rightarrow> Some (c # t, r))"
proof -
  have lt: "(of_char c :: nat) < 256" by (rule nat_of_char_less_256) 
  show ?thesis
    unfolding escape_char_def
    by (auto simp: unescape_def hex4_of_char lt split: option.splits)
qed

lemma scan_string_escaped:
  "scan_string (concat (map escape_char s) @ CHR 0x22 # rest) = Some (s, rest)"
  by (induction s) (simp_all add: scan_string_escape_char del: scan_string.simps, simp)

lemma digit_char_value: "k < 10 \<Longrightarrow> of_char (''0123456789'' ! k) - 48 = k"
proof -
  assume "k < 10"
  then have "k \<in> set [0, 1, 2, 3, 4, 5, 6, 7, 8, 9]"
    by (simp add: numeral_eq_Suc less_Suc_eq)
  then show ?thesis by auto
qed

lemma digit_char_is_digit: "k < 10 \<Longrightarrow> is_digit (''0123456789'' ! k)"
  unfolding is_digit_def by (rule nth_mem) simp

lemma digit_char_zero: "k < 10 \<Longrightarrow> ''0123456789'' ! k = CHR ''0'' \<longleftrightarrow> k = 0"
proof -
  assume "k < 10"
  then have "k \<in> set [0, 1, 2, 3, 4, 5, 6, 7, 8, 9]"
    by (simp add: numeral_eq_Suc less_Suc_eq)
  then show ?thesis by auto
qed

lemma nat_digits_not_Nil: "nat_digits n \<noteq> []"
  by (subst nat_digits.simps) simp

lemma nat_digits_all_digits: "list_all is_digit (nat_digits n)"
proof (induction n rule: nat_digits.induct)
  case (1 n)
  show ?case
  proof (cases "n < 10")
    case True
    then show ?thesis by (subst nat_digits.simps) (simp add: digit_char_is_digit)
  next
    case False
    with 1 show ?thesis
      by (subst nat_digits.simps) (simp add: digit_char_is_digit)
  qed
qed

lemma nat_of_digits_snoc:
  "nat_of_digits (ds @ [c]) = 10 * nat_of_digits ds + (of_char c - 48)"
  by (simp add: nat_of_digits_def)

lemma nat_of_digits_nat_digits: "nat_of_digits (nat_digits n) = n"
proof (induction n rule: nat_digits.induct)
  case (1 n)
  show ?case
  proof (cases "n < 10")
    case True
    then show ?thesis
      by (subst nat_digits.simps) (simp add: nat_of_digits_def digit_char_value)
  next
    case False
    with 1 have "nat_of_digits (nat_digits (n div 10)) = n div 10" by simp
    with False show ?thesis
      by (subst nat_digits.simps) (simp add: nat_of_digits_snoc digit_char_value)
  qed
qed

lemma hd_nat_digits: "0 < n \<Longrightarrow> hd (nat_digits n) \<noteq> CHR ''0''"
proof (induction n rule: nat_digits.induct)
  case (1 n)
  show ?case
  proof (cases "n < 10")
    case True
    with "1.prems" have "''0123456789'' ! n \<noteq> CHR ''0''"
      using digit_char_zero [of n] by blast
    with True show ?thesis
      by (subst nat_digits.simps) simp
  next
    case False
    then have "0 < n div 10" by simp
    with 1 False have "hd (nat_digits (n div 10)) \<noteq> CHR ''0''" by simp
    with False show ?thesis
      by (subst nat_digits.simps) (simp add: nat_digits_not_Nil)
  qed
qed

lemma nat_digits_zero: "nat_digits 0 = ''0''"
  by (subst nat_digits.simps) simp

lemma takeWhile_digits:
  assumes "list_all is_digit ds" "follow_ok rest"
  shows "takeWhile is_digit (ds @ rest) = ds" "dropWhile is_digit (ds @ rest) = rest"
proof -
  from assms(2) have r: "takeWhile is_digit rest = []" "dropWhile is_digit rest = rest"
    by (cases rest; simp add: follow_ok_def)+
  from assms(1) have a: "\<forall>x\<in>set ds. is_digit x" by (simp add: list_all_iff)
  then show "takeWhile is_digit (ds @ rest) = ds" by (simp add: takeWhile_append2 r)
  from a show "dropWhile is_digit (ds @ rest) = rest" by (simp add: dropWhile_append2 r)
qed

lemma scan_int_nat_digits:
  assumes "follow_ok rest"
  shows "scan_int (nat_digits n @ rest) = Some (int n, rest)"
proof -
  have nn: "nat_digits n \<noteq> []" by (rule nat_digits_not_Nil)
  have hd_digit: "is_digit (hd (nat_digits n))"
    using nat_digits_all_digits [of n] nn by (cases "nat_digits n") simp_all
  then have not_minus: "hd (nat_digits n) \<noteq> CHR ''-''" by (auto simp: is_digit_def)
  have lead: "\<not> (hd (nat_digits n) = CHR ''0'' \<and> 1 < length (nat_digits n))"
  proof (cases "n = 0")
    case True
    then show ?thesis by (simp add: nat_digits_zero)
  next
    case False
    then show ?thesis using hd_nat_digits [of n] by simp
  qed
  have follow: "\<not> (rest \<noteq> [] \<and> hd rest \<in> set ''.eE'')"
    using assms by (cases rest) (simp_all add: follow_ok_def)
  show ?thesis
    using nn not_minus lead follow
    by (simp add: scan_int_def Let_def takeWhile_digits [OF nat_digits_all_digits assms]
          nat_of_digits_nat_digits hd_append del: nat_digits.simps)
qed

lemma scan_int_int_repr:
  assumes "follow_ok rest"
  shows "scan_int (int_repr i @ rest) = Some (i, rest)"
proof (cases "i < 0")
  case False
  then show ?thesis
    using scan_int_nat_digits [OF assms, of "nat i"]
    by (simp add: int_repr_def del: nat_digits.simps)
next
  case True
  have nn: "nat_digits (nat (- i)) \<noteq> []" by (rule nat_digits_not_Nil)
  have lead: "\<not> (hd (nat_digits (nat (- i))) = CHR ''0'' \<and> 1 < length (nat_digits (nat (- i))))"
    using hd_nat_digits [of "nat (- i)"] True by simp
  have follow: "\<not> (rest \<noteq> [] \<and> hd rest \<in> set ''.eE'')"
    using assms by (cases rest) (simp_all add: follow_ok_def)
  show ?thesis
    using True nn lead follow
    by (simp add: int_repr_def scan_int_def Let_def
          takeWhile_digits [OF nat_digits_all_digits assms]
          nat_of_digits_nat_digits del: nat_digits.simps)
qed

lemma hd_nat_digits_digit: "\<exists>c cs. nat_digits n = c # cs \<and> is_digit c"
  using nat_digits_all_digits [of n] nat_digits_not_Nil [of n]
  by (cases "nat_digits n") simp_all

lemma starts_value_dumps: "starts_value (json_dumps v @ rest)"
proof (cases v)
  case (PInt i)
  obtain c cs where "nat_digits (nat (- i)) = c # cs" "is_digit c"
    using hd_nat_digits_digit by blast
  moreover obtain c' cs' where "nat_digits (nat i) = c' # cs'" "is_digit c'"
    using hd_nat_digits_digit by blast
  ultimately show ?thesis using PInt
    by (auto simp: starts_value_def int_repr_def is_ws_def is_digit_def)
qed (simp_all add: starts_value_def is_ws_def encode_basestring_ascii_def)

lemma skip_ws_starts_value: "starts_value s \<Longrightarrow> skip_ws s = s"
  by (cases s) (simp_all add: starts_value_def skip_ws_def)

lemma skip_ws_space: "skip_ws (CHR '' '' # s) = skip_ws s"
  by (simp add: skip_ws_def is_ws_def)

lemma dict_set_fresh: "k \<notin> fst ` set acc \<Longrightarrow> dict_set acc k v = acc @ [(k, v)]"
  by (induction acc) auto

lemma follow_ok_simps [simp]:
  "follow_ok []" "follow_ok (CHR '','' # s)" "follow_ok (CHR '']'' # s)" "follow_ok (CHR ''}'' # s)"
  by (simp_all add: follow_ok_def is_digit_def)

lemma loads_string:
  "loads_value (Suc n) (encode_basestring_ascii s @ rest) = Some (PStr s, rest)"
  by (simp add: encode_basestring_ascii_def scan_string_escaped)

lemma loads_int:
  assumes "follow_ok rest"
  shows "loads_value (Suc n) (int_repr i @ rest) = Some (PInt i, rest)"
proof -
  obtain c cs where c: "int_repr i @ rest = c # cs" and d: "c = CHR ''-'' \<or> is_digit c"
    using hd_nat_digits_digit [of "nat i"] hd_nat_digits_digit [of "nat (- i)"]
    by (cases "i < 0") (auto simp: int_repr_def)
  from d have "c \<noteq> CHR 0x22" "c \<noteq> CHR ''{''" "c \<noteq> CHR ''[''" "c \<noteq> CHR ''n''"
    "c \<noteq> CHR ''t''" "c \<noteq> CHR ''f''"
    by (auto simp: is_digit_def)
  then have "loads_value (Suc n) (c # cs)
      = (case scan_int (c # cs) of None \<Rightarrow> None | Some (i, r) \<Rightarrow> Some (PInt i, r))"
    by simp
  with scan_int_int_repr [OF assms, of i] c show ?thesis by simp
qed

lemma starts_value_elems: "xs \<noteq> [] \<Longrightarrow> starts_value (dumps_elems xs @ rest)"
proof (cases xs)
  case Nil
  assume "xs \<noteq> []"
  with Nil show ?thesis by simp
next
  case (Cons x ys)
  show ?thesis
  proof (cases ys)
    case Nil
    with Cons show ?thesis using starts_value_dumps [of x rest] by simp
  next
    case (Cons y zs)
    with \<open>xs = x # ys\<close> show ?thesis
      using starts_value_dumps [of x "'', '' @ dumps_elems (y # zs) @ rest"] by simp
  qed
qed

lemma starts_value_items: "d \<noteq> [] \<Longrightarrow> starts_value (dumps_items d @ rest)"
proof (cases d)
  case Nil
  assume "d \<noteq> []"
  with Nil show ?thesis by simp
next
  case (Cons p ys)
  obtain k v where p: "p = (k, v)" by (cases p)
  show ?thesis
  proof (cases ys)
    case Nil
    with Cons p show ?thesis
      by (simp add: starts_value_def encode_basestring_ascii_def is_ws_def)
  next
    case (Cons y zs)
    with \<open>d = p # ys\<close> p show ?thesis
      by (simp add: starts_value_def encode_basestring_ascii_def is_ws_def)
  qed
qed

lemma loads_value_list_step:
  assumes "starts_value s"
  shows "loads_value (Suc n) (CHR ''['' # s)
           = (case loads_elems n s [] of None \<Rightarrow> None | Some (xs, r') \<Rightarrow> Some (PList xs, r'))"
proof -
  from assms obtain c r where s: "s = c # r" and c: "c \<noteq> CHR '']''"
    by (cases s) (auto simp: starts_value_def)
  from assms have "skip_ws s = s" by (rule skip_ws_starts_value)
  with s c show ?thesis by simp
qed

lemma loads_value_dict_step:
  assumes "starts_value s"
  shows "loads_value (Suc n) (CHR ''{'' # s)
           = (case loads_items n s [] of None \<Rightarrow> None | Some (d, r') \<Rightarrow> Some (PDict d, r'))"
proof -
  from assms obtain c r where s: "s = c # r" and c: "c \<noteq> CHR ''}''"
    by (cases s) (auto simp: starts_value_def)
  from assms have "skip_ws s = s" by (rule skip_ws_starts_value)
  with s c show ?thesis by simp
qed

lemma loads_items_step:
  assumes "loads_value n (skip_ws r) = Some (v, r')"
  shows "loads_items (Suc n) (encode_basestring_ascii k @ CHR '':'' # r) acc
           = (case skip_ws r' of
                [] \<Rightarrow> None
              | c # r'' \<Rightarrow>
                  if c = CHR '','' then loads_items n (skip_ws r'') (dict_set acc k v)
                  else if c = CHR ''}'' then Some (dict_set acc k v, r'')
                  else None)"
  using assms
  by (simp add: encode_basestring_ascii_def scan_string_escaped skip_ws_def is_ws_def)

lemma loads_dumps:
  "wf_pyval v \<Longrightarrow> need v \<le> n \<Longrightarrow> follow_ok rest \<Longrightarrow>
     loads_value n (json_dumps v @ rest) = Some (v, rest)"
  "wf_elems xs \<Longrightarrow> xs \<noteq> [] \<Longrightarrow> need_elems xs \<le> n \<Longrightarrow>
     loads_elems n (dumps_elems xs @ CHR '']'' # rest) acc = Some (acc @ xs, rest)"
  "wf_items d \<Longrightarrow> d \<noteq> [] \<Longrightarrow> need_items d \<le> n \<Longrightarrow> distinct (map fst (acc2 @ d)) \<Longrightarrow>
     loads_items n (dumps_items d @ CHR ''}'' # rest) acc2 = Some (acc2 @ d, rest)"
proof (induction v and xs and d arbitrary: n rest and n rest acc and n rest acc2
        rule: json_dumps_dumps_elems_dumps_items.induct)
  case 1
  then obtain m where "n = Suc m" by (cases n) auto
  then show ?case by (simp add: literal_def)
next
  case (2 b)
  then obtain m where "n = Suc m" by (cases n) auto
  then show ?case by (simp add: literal_def)
next
  case (3 i)
  then obtain m where n: "n = Suc m" by (cases n) auto
  from "3.prems" have "follow_ok rest" by simp
  from loads_int [OF this, of m i] n show ?case by (simp del: loads_value.simps)
next
  case (4 s)
  then obtain m where n: "n = Suc m" by (cases n) auto
  from loads_string [of m s rest] n show ?case by (simp del: loads_value.simps)
next
  case (5 xs)
  then obtain m where n: "n = Suc m" and m: "need_elems xs \<le> m" by (cases n) auto
  show ?case
  proof (cases "xs = []")
    case True
    with n show ?thesis by (simp add: skip_ws_def is_ws_def)
  next
    case False
    from "5.prems" have "wf_elems xs" by simp
    from "5.IH" [OF this False m, of "rest" "[]"]
    have "loads_elems m (dumps_elems xs @ CHR '']'' # rest) [] = Some (xs, rest)" by simp
    with loads_value_list_step [OF starts_value_elems [OF False], of m "CHR '']'' # rest"] n
    show ?thesis by simp
  qed
next
  case (6 d)
  then obtain m where n: "n = Suc m" and m: "need_items d \<le> m" by (cases n) auto
  show ?case
  proof (cases "d = []")
    case True
    with n show ?thesis by (simp add: skip_ws_def is_ws_def)
  next
    case False
    from "6.prems" have "wf_items d" "distinct (map fst ([] @ d))" by simp_all
    from "6.IH" [OF this(1) False m this(2), of rest]
    have "loads_items m (dumps_items d @ CHR ''}'' # rest) [] = Some (d, rest)" by simp
    with loads_value_dict_step [OF starts_value_items [OF False], of m "CHR ''}'' # rest"] n
    show ?thesis by simp
  qed
next
  case 7
  then show ?case by simp
next
  case (8 x)
  then obtain m where n: "n = Suc m" and m: "need x \<le> m" by (cases n) auto
  from "8.prems" have "wf_pyval x" by simp
  from "8.IH" [OF this m, of "CHR '']'' # rest"]
  have "loads_value m (json_dumps x @ CHR '']'' # rest) = Some (x, CHR '']'' # rest)" by simp
  with n show ?case by (simp add: skip_ws_def is_ws_def)
next
  case (9 x y ys)
  then obtain m where n: "n = Suc m" and m: "need x \<le> m" "need_elems (y # ys) \<le> m"
    by (cases n) auto
  from "9.prems" have w: "wf_pyval x" "wf_elems (y # ys)" by simp_all
  let ?tail = "dumps_elems (y # ys) @ CHR '']'' # rest"
  from "9.IH"(1) [OF w(1) m(1), of "CHR '','' # CHR '' '' # ?tail"]
  have v: "loads_value m (json_dumps x @ CHR '','' # CHR '' '' # ?tail)
             = Some (x, CHR '','' # CHR '' '' # ?tail)" by simp
  have "skip_ws (CHR '' '' # ?tail) = ?tail"
    using skip_ws_starts_value [OF starts_value_elems, of "y # ys" "CHR '']'' # rest"]
    by (simp add: skip_ws_space)
  moreover from "9.IH"(2) [OF w(2) _ m(2), of rest "acc @ [x]"]
  have "loads_elems m ?tail (acc @ [x]) = Some (acc @ x # y # ys, rest)" by simp
  ultimately show ?case using v n
    by (simp add: skip_ws_def is_ws_def)
next
  case 10
  then show ?case by simp
next
  case (11 k v)
  then obtain m where n: "n = Suc m" and m: "need v \<le> m" by (cases n) auto
  from "11.prems" have w: "wf_pyval v" and fresh: "k \<notin> fst ` set acc2" by auto
  from "11.IH" [OF w m, of "CHR ''}'' # rest"]
  have "loads_value m (json_dumps v @ CHR ''}'' # rest) = Some (v, CHR ''}'' # rest)" by simp
  moreover have "skip_ws (CHR '' '' # json_dumps v @ CHR ''}'' # rest) = json_dumps v @ CHR ''}'' # rest"
    using skip_ws_starts_value [OF starts_value_dumps, of v "CHR ''}'' # rest"]
    by (simp add: skip_ws_space)
  ultimately have "loads_value m (skip_ws (CHR '' '' # json_dumps v @ CHR ''}'' # rest))
      = Some (v, CHR ''}'' # rest)" by simp
  from loads_items_step [OF this, of k acc2] n fresh show ?case
    by (simp add: dict_set_fresh skip_ws_def is_ws_def)
next
  case (12 k v kv kvs)
  then obtain m where n: "n = Suc m" and m: "need v \<le> m" "need_items (kv # kvs) \<le> m"
    by (cases n) auto
  from "12.prems" have w: "wf_pyval v" "wf_items (kv # kvs)" and fresh: "k \<notin> fst ` set acc2"
    and dist: "distinct (map fst ((acc2 @ [(k, v)]) @ kv # kvs))"
    by auto
  let ?tail = "dumps_items (kv # kvs) @ CHR ''}'' # rest"
  from "12.IH"(1) [OF w(1) m(1), of "CHR '','' # CHR '' '' # ?tail"]
  have "loads_value m (json_dumps v @ CHR '','' # CHR '' '' # ?tail)
          = Some (v, CHR '','' # CHR '' '' # ?tail)" by simp
  moreover have "skip_ws (CHR '' '' # json_dumps v @ CHR '','' # CHR '' '' # ?tail)
      = json_dumps v @ CHR '','' # CHR '' '' # ?tail"
    using skip_ws_starts_value [OF starts_value_dumps, of v "CHR '','' # CHR '' '' # ?tail"]
    by (simp add: skip_ws_space)
  ultimately have "loads_value m (skip_ws (CHR '' '' # json_dumps v @ CHR '','' # CHR '' '' # ?tail))
      = Some (v, CHR '','' # CHR '' '' # ?tail)" by simp
  note step = loads_items_step [OF this, of k acc2]
  have t: "skip_ws (CHR '' '' # ?tail) = ?tail"
    using skip_ws_starts_value [OF starts_value_items, of "kv # kvs" "CHR ''}'' # rest"]
    by (simp add: skip_ws_space)
  from "12.IH"(2) [OF w(2) _ m(2) dist, of rest]
  have "loads_items m ?tail (acc2 @ [(k, v)]) = Some (acc2 @ (k, v) # kv # kvs, rest)" by simp
  with step t n fresh show ?case
    by (simp add: dict_set_fresh skip_ws_def is_ws_def)
qed

lemma need_le_length:
  "need v \<le> length (json_dumps v)"
  "need_elems xs \<le> Suc (length (dumps_elems xs))"
  "need_items d \<le> Suc (length (dumps_items d))"
proof (induction v and xs and d rule: json_dumps_dumps_elems_dumps_items.induct)
  case (3 i)
  have "int_repr i \<noteq> []" using nat_digits_not_Nil by (simp add: int_repr_def)
  then show ?case by (cases "int_repr i") simp_all
next
  case (4 s)
  show ?case by (simp add: encode_basestring_ascii_def)
qed (simp_all add: encode_basestring_ascii_def)

lemma json_loads_dumps: "wf_pyval v \<Longrightarrow> json_loads (json_dumps v) = Some v"
proof -
  assume w: "wf_pyval v"
  have s: "skip_ws (json_dumps v) = json_dumps v"
    using skip_ws_starts_value [OF starts_value_dumps, of v "[]"] by simp
  have "need v \<le> 2 * length (json_dumps v) + 2"
    using need_le_length(1) [of v] by simp
  from loads_dumps(1) [OF w this, of "[]"] s show ?thesis
    by (simp add: json_loads_def skip_ws_def del: json_dumps.simps)
qed

lemma wf_items_filter: "wf_items d \<Longrightarrow> wf_items (filter P d)"
  by (induction d) auto

lemma wf_items_append: "wf_items (a @ b) \<longleftrightarrow> wf_items a \<and> wf_items b"
  by (induction a) auto

lemma wf_items_dict_set: "wf_items d \<Longrightarrow> wf_pyval v \<Longrightarrow> wf_items (dict_set d k v)"
  by (induction d) auto

lemma wf_items_foldl_dict_set:
  "wf_items acc \<Longrightarrow> wf_items xs \<Longrightarrow> wf_items (foldl (\<lambda>d (k, v). dict_set d k v) acc xs)"
proof (induction xs arbitrary: acc)
  case Nil
  then show ?case by simp
next
  case (Cons p xs)
  obtain k v where p: "p = (k, v)" by (cases p)
  with Cons show ?case by (simp add: wf_items_dict_set)
qed

lemma wf_dict_merge: "wf_items a \<Longrightarrow> wf_items b \<Longrightarrow> wf_pyval (PDict (dict_merge a b))"
  by (simp add: distinct_dict_merge dict_merge_def [symmetric])
     (simp add: dict_merge_def wf_items_foldl_dict_set wf_items_append)

lemma wf_filter_state:
  "wf_pyval (PDict (to_dict_if_pydantic s)) \<Longrightarrow> wf_pyval (PDict (filter_state s None))"
  by (simp add: filter_state_def Let_def wf_items_filter distinct_map_filter)

lemma loads_filter_state:
  "wf_pyval (PDict (to_dict_if_pydantic s)) \<Longrightarrow>
   json_loads (json_dumps (PDict (filter_state s None))) = Some (PDict (filter_state s None))"
  by (rule json_loads_dumps) (rule wf_filter_state)

lemma wf_snapshot_state:
  "wf_items (to_dict_if_pydantic st) \<Longrightarrow> wf_items predicted \<Longrightarrow>
   wf_pyval (PDict (snapshot_state st predicted))"
  unfolding snapshot_state_def
  by (rule wf_filter_state) (simp only: to_dict_if_pydantic_def py_state.case wf_dict_merge)

lemma loads_snapshot_state:
  "wf_items (to_dict_if_pydantic st) \<Longrightarrow> wf_items predicted \<Longrightarrow>
   json_loads (json_dumps (PDict (snapshot_state st predicted)))
     = Some (PDict (snapshot_state st predicted))"
  by (rule json_loads_dumps) (rule wf_snapshot_state)

section \<open>Properties of the dispatcher\<close>

text \<open>
  Claim C5. Whatever the execution record holds, handling a \<^verbatim>\<open>NodeFinished\<close> event
  returns a text and leaves the prediction working set reset: \<^verbatim>\<open>predicted_state\<close> is
  the empty dict, \<^verbatim>\<open>argument_buffer\<close> the empty string, \<^verbatim>\<open>current_tool_call\<close> is
  \<^verbatim>\<open>None\<close> and \<^verbatim>\<open>predict_state_configuration\<close> the empty dict.
\<close>

theorem node_finished_resets_prediction:
  "\<exists>text ex'.
     handle_runtime_event parse (Lifecycle (NodeFinished name st)) execution = Inr (Some text, ex')
     \<and> predicted_state ex' = [] \<and> argument_buffer ex' = []
     \<and> current_tool_call ex' = None \<and> predict_state_configuration ex' = PDict []"
  by (simp add: Let_def)

text \<open>
  Claim C8. An event whose \<^verbatim>\<open>"type"\<close> is no member of \<^verbatim>\<open>RuntimeEventTypes\<close>, and a
  \<^verbatim>\<open>MetaEvent\<close> whose name is neither \<^verbatim>\<open>PREDICT_STATE\<close> nor \<^verbatim>\<open>EXIT\<close>, is handled without
  an exception: the dispatcher returns \<^verbatim>\<open>None\<close> and the execution record is the one it
  was given.
\<close>

theorem unknown_event_is_noop:
  "((\<forall>t. event_type event \<noteq> TypeEnum t) \<longrightarrow>
      handle_runtime_event parse event execution = Inr (None, execution))
   \<and> (name \<noteq> NameEnum PREDICT_STATE \<and> name \<noteq> NameEnum EXIT \<longrightarrow>
      handle_runtime_event parse (Protocol (MetaEvent name v)) execution = Inr (None, execution))"
proof (intro conjI impI)
  assume h: "\<forall>t. event_type event \<noteq> TypeEnum t"
  show "handle_runtime_event parse event execution = Inr (None, execution)"
  proof (cases event)
    case (Protocol e)
    with h show ?thesis by (cases e) simp_all
  next
    case (Lifecycle l)
    with h show ?thesis by (cases l) simp_all
  next
    case (Unknown t)
    then show ?thesis by simp
  qed
next
  assume "name \<noteq> NameEnum PREDICT_STATE \<and> name \<noteq> NameEnum EXIT"
  then show "handle_runtime_event parse (Protocol (MetaEvent name v)) execution
               = Inr (None, execution)"
    by simp
qed

theorem unknown_event_is_noop_witness:
  "handle_runtime_event (\<lambda>s. None) (Unknown (PStr ''CustomEvent'')) example_execution
     = Inr (None, example_execution)
   \<and> handle_runtime_event (\<lambda>s. None)
       (Protocol (MetaEvent (NameEnum LANG_GRAPH_INTERRUPT_EVENT) PNone)) example_execution
     = Inr (None, example_execution)"
  using unknown_event_is_noop [of "Unknown (PStr ''CustomEvent'')" "\<lambda>s. None" example_execution
          "NameEnum LANG_GRAPH_INTERRUPT_EVENT" PNone]
  by simp

text \<open>
  Claim C9. A \<^verbatim>\<open>MetaEvent\<close> is never forwarded: the dispatcher returns \<^verbatim>\<open>None\<close> for every
  name and value. For the name \<^verbatim>\<open>PREDICT_STATE\<close> the execution record it leaves is the
  given one with \<^verbatim>\<open>predict_state_configuration\<close> replaced by the event's value, for the
  name \<^verbatim>\<open>EXIT\<close> the given one with \<^verbatim>\<open>should_exit\<close> replaced by the event's value; no
  other field differs.
\<close>

theorem meta_event_updates_only_its_field:
  "(\<exists>ex'. handle_runtime_event parse (Protocol (MetaEvent name v)) execution = Inr (None, ex'))
   \<and> handle_runtime_event parse (Protocol (MetaEvent (NameEnum PREDICT_STATE) v)) execution
       = Inr (None, execution\<lparr>predict_state_configuration := v\<rparr>)
   \<and> handle_runtime_event parse (Protocol (MetaEvent (NameEnum EXIT) v)) execution
       = Inr (None, execution\<lparr>should_exit := v\<rparr>)"
  by simp

section \<open>Properties of the serializer and of the run loop\<close>

text \<open>
  Claim C10. Handling a \<^verbatim>\<open>NodeFinished\<close> event leaves \<^verbatim>\<open>node_name\<close> as it was and does
  not read the name the event carries: the message it sends reports the \<^verbatim>\<open>node_name\<close>
  of the execution record. After any sequence of events that the run loop has handled
  without finishing, that name is the one of the most recent \<^verbatim>\<open>NodeStarted\<close> event, or
  the initial name when there was none.
\<close>

theorem node_finished_keeps_node_name:
  "handle_runtime_event parse (Lifecycle (NodeFinished name st)) ex
     = Inr (Some (emit_runtime_event (to_dict
              (agent_state_message (thread_id ex) (agent_name ex) (node_name ex) (run_id ex)
                 False ''assistant'' (json_dumps (PDict (filter_state st None))) True))),
            ex\<lparr>predict_state_configuration := PDict [], current_tool_call := None,
               argument_buffer := [], predicted_state := [], state := st\<rparr>)
   \<and> (copilotkit_run parse es ex0 = (outs, Waiting, ex) \<longrightarrow>
        node_name ex = last_node_started (node_name ex0) es)
   \<and> (handle_runtime_event parse ev ex1 = Inr (out, ex2) \<longrightarrow>
        node_name ex2 = (case ev of Lifecycle (NodeStarted n _) \<Rightarrow> n | _ \<Rightarrow> node_name ex1))"
proof -
  have "node_name ex2 = (case ev of Lifecycle (NodeStarted n _) \<Rightarrow> n | _ \<Rightarrow> node_name ex1)"
    if "handle_runtime_event parse ev ex1 = Inr (out, ex2)"
    using handle_keeps_identity [OF that]
    by (cases "(node_name ex1, [ev])" rule: last_node_started.cases) auto
  then show ?thesis
    using run_waiting_node_name [of parse es ex0 outs ex] by (simp add: Let_def)
qed

theorem node_finished_keeps_node_name_witness:
  "node_name (snd (snd (copilotkit_run (\<lambda>s. None) node_name_events example_execution)))
     = ''agent_node''
   \<and> (\<exists>ex'. handle_runtime_event (\<lambda>s. None) (Lifecycle (NodeFinished ''other_node'' (StateDict [])))
         (snd (snd (copilotkit_run (\<lambda>s. None) node_name_events example_execution)))
       = Inr (Some (emit_runtime_event (to_dict
              (agent_state_message ''thread_1'' ''assistant'' ''agent_node'' ''run_1''
                 False ''assistant'' (json_dumps (PDict [])) True))), ex')
       \<and> node_name ex' = ''agent_node'')
   \<and> node_name (example_execution\<lparr>is_finished := True\<rparr>) = node_name example_execution"
proof -
  let ?r = "copilotkit_run (\<lambda>s. None) node_name_events example_execution"
  have w: "fst (snd ?r) = Waiting"
    by (simp add: node_name_events_def example_execution_def Let_def)
  have i: "thread_id (snd (snd ?r)) = ''thread_1''" "agent_name (snd (snd ?r)) = ''assistant''"
    "run_id (snd (snd ?r)) = ''run_1''"
    by (simp_all add: node_name_events_def example_execution_def Let_def)
  have r: "?r = (fst ?r, Waiting, snd (snd ?r))"
    using w by (metis prod.collapse)
  have h: "handle_runtime_event (\<lambda>s. None) (Lifecycle (RunFinished (StateDict []))) example_execution
             = Inr (None, example_execution\<lparr>is_finished := True\<rparr>)"
    by simp
  from node_finished_keeps_node_name [of "\<lambda>s. None" "''other_node''" "StateDict []"
      "snd (snd ?r)" node_name_events example_execution "fst ?r"
      "Lifecycle (RunFinished (StateDict []))" example_execution None
      "example_execution\<lparr>is_finished := True\<rparr>"] r h
  show ?thesis using i
    by (simp add: node_name_events_def example_execution_def filter_state_def
          to_dict_if_pydantic_def del: copilotkit_run.simps handle_runtime_event.simps)
qed

text \<open>
  Claim C7. For a non-empty sequence of events, \<^verbatim>\<open>emit_runtime_events\<close> returns the
  lines of the events in input order, each followed by one newline, and the text holds as
  many newlines as there are events; no line contains a newline. A line is the JSON text
  of the event's dict with the same keys in the same order, where a value that is a
  member of \<^verbatim>\<open>RuntimeEventTypes\<close> or \<^verbatim>\<open>RuntimeMetaEventName\<close> is replaced by the string
  that is its wire value and every other value is kept. \<^verbatim>\<open>emit_runtime_event\<close> on one
  event is \<^verbatim>\<open>emit_runtime_events\<close> on that event alone.
\<close>

theorem emit_runtime_events_lines:
  "(events \<noteq> [] \<longrightarrow>
      emit_runtime_events events
        = concat (map (\<lambda>e. json_dumps (PDict (serialize_event e)) @ [CHR 0x0A]) events)
      \<and> length (filter (\<lambda>c. c = CHR 0x0A) (emit_runtime_events events)) = length events)
   \<and> CHR 0x0A \<notin> set (json_dumps (PDict (serialize_event event)))
   \<and> length (serialize_event event) = length event
   \<and> (i < length event \<longrightarrow>
        fst (serialize_event event ! i) = fst (event ! i)
        \<and> snd (serialize_event event ! i) =
            (case snd (event ! i) of
               TypeEnum t \<Rightarrow> PStr (RuntimeEventTypes_value t)
             | NameEnum n \<Rightarrow> PStr (RuntimeMetaEventName_value n)
             | Val x \<Rightarrow> x))
   \<and> emit_runtime_event event = emit_runtime_events [event]"
proof -
  have a: "emit_runtime_events events
        = concat (map (\<lambda>e. json_dumps (PDict (serialize_event e)) @ [CHR 0x0A]) events)"
    if "events \<noteq> []"
    using that str_join_newline [of "map (\<lambda>e. json_dumps (PDict (serialize_event e))) events"]
    by (simp add: emit_runtime_events_def comp_def)
  have n: "CHR 0x0A \<notin> set (json_dumps (PDict (serialize_event e)))" for e
    by (rule json_dumps_no_newline(1))
  have c: "length (filter (\<lambda>c. c = CHR 0x0A)
             (concat (map (\<lambda>e. json_dumps (PDict (serialize_event e)) @ [CHR 0x0A]) es))) = length es"
    for es
  proof (induction es)
    case Nil
    show ?case by simp
  next
    case (Cons e es)
    have "filter (\<lambda>c. c = CHR 0x0A) (json_dumps (PDict (serialize_event e))) = []"
      using n [of e] by (auto simp add: filter_empty_conv simp del: json_dumps.simps)
    with Cons show ?case by (simp del: json_dumps.simps)
  qed
  have s: "fst (serialize_event event ! i) = fst (event ! i)
        \<and> snd (serialize_event event ! i) =
            (case snd (event ! i) of
               TypeEnum t \<Rightarrow> PStr (RuntimeEventTypes_value t)
             | NameEnum n \<Rightarrow> PStr (RuntimeMetaEventName_value n)
             | Val x \<Rightarrow> x)" if "i < length event"
    using that
    by (simp add: serialize_event_def serialize_field_def split_beta split: pyfield.splits)
  show ?thesis
    using a c [of events] n [of event] s
    by (simp add: emit_runtime_event_def serialize_event_def del: json_dumps.simps)
qed

theorem emit_runtime_events_lines_witness:
  "emit_runtime_events [to_dict (text_message_start ''msg_1'' None),
                        to_dict (text_message_content ''msg_1'' ''Hello'')]
     = ''{'' @ quoted ''type'' @ '': '' @ quoted ''TextMessageStart'' @ '', ''
         @ quoted ''messageId'' @ '': '' @ quoted ''msg_1'' @ '', ''
         @ quoted ''parentMessageId'' @ '': null}'' @ [CHR 0x0A]
       @ ''{'' @ quoted ''type'' @ '': '' @ quoted ''TextMessageContent'' @ '', ''
         @ quoted ''messageId'' @ '': '' @ quoted ''msg_1'' @ '', ''
         @ quoted ''content'' @ '': '' @ quoted ''Hello'' @ ''}'' @ [CHR 0x0A]
   \<and> snd (serialize_event (to_dict (text_message_start ''msg_1'' None)) ! 0)
       = PStr ''TextMessageStart''"
proof -
  have "[to_dict (text_message_start ''msg_1'' None),
         to_dict (text_message_content ''msg_1'' ''Hello'')] \<noteq> []" by simp
  with emit_runtime_events_lines [of "[to_dict (text_message_start ''msg_1'' None),
                        to_dict (text_message_content ''msg_1'' ''Hello'')]"
          "to_dict (text_message_start ''msg_1'' None)" 0]
  show ?thesis
    by (simp add: text_message_start_def text_message_content_def serialize_event_def
          serialize_field_def encode_basestring_ascii_def escape_char_def quoted_def py_of_opt_def)
qed

text \<open>
  Claim C3. In a run that is not finished when it starts, a producer that emits
  TextMessageStart("m1"), TextMessageContent("m1", "Hi"), TextMessageEnd("m1") and
  RunFinished({}) makes the run loop yield exactly three texts, the lines of the three
  text events in that order, and then leave its loop; the RunFinished event yields
  nothing. The three lines are given literally.
\<close>

theorem text_scenario_three_lines:
  "\<not> is_finished execution \<longrightarrow>
   copilotkit_run parse text_scenario execution
     = ([emit_runtime_event (to_dict (text_message_start ''m1'' None)),
         emit_runtime_event (to_dict (text_message_content ''m1'' ''Hi'')),
         emit_runtime_event (to_dict (text_message_end ''m1''))],
        Completed, execution\<lparr>is_finished := True\<rparr>)
   \<and> emit_runtime_event (to_dict (text_message_start ''m1'' None))
       = ''{'' @ quoted ''type'' @ '': '' @ quoted ''TextMessageStart'' @ '', ''
         @ quoted ''messageId'' @ '': '' @ quoted ''m1'' @ '', ''
         @ quoted ''parentMessageId'' @ '': null}'' @ [CHR 0x0A]
   \<and> emit_runtime_event (to_dict (text_message_content ''m1'' ''Hi''))
       = ''{'' @ quoted ''type'' @ '': '' @ quoted ''TextMessageContent'' @ '', ''
         @ quoted ''messageId'' @ '': '' @ quoted ''m1'' @ '', ''
         @ quoted ''content'' @ '': '' @ quoted ''Hi'' @ ''}'' @ [CHR 0x0A]
   \<and> emit_runtime_event (to_dict (text_message_end ''m1''))
       = ''{'' @ quoted ''type'' @ '': '' @ quoted ''TextMessageEnd'' @ '', ''
         @ quoted ''messageId'' @ '': '' @ quoted ''m1'' @ ''}'' @ [CHR 0x0A]"
proof (intro impI conjI)
  assume "\<not> is_finished execution"
  then show "copilotkit_run parse text_scenario execution
     = ([emit_runtime_event (to_dict (text_message_start ''m1'' None)),
         emit_runtime_event (to_dict (text_message_content ''m1'' ''Hi'')),
         emit_runtime_event (to_dict (text_message_end ''m1''))],
        Completed, execution\<lparr>is_finished := True\<rparr>)"
    by (simp add: text_scenario_def text_message_start_def text_message_content_def
          text_message_end_def emit_runtime_event_def event_type_protocol
          del: to_dict.simps event_type.simps(1))
qed (simp_all add: text_message_start_def text_message_content_def text_message_end_def
       emit_runtime_event_def emit_runtime_events_def serialize_event_def serialize_field_def
       encode_basestring_ascii_def escape_char_def quoted_def py_of_opt_def)

theorem text_scenario_three_lines_witness:
  "length (fst (copilotkit_run (\<lambda>s. None) text_scenario example_execution)) = 3
   \<and> fst (snd (copilotkit_run (\<lambda>s. None) text_scenario example_execution)) = Completed"
proof -
  have "\<not> is_finished example_execution" by (simp add: example_execution_def)
  with text_scenario_three_lines [of example_execution "\<lambda>s. None"] show ?thesis by simp
qed



section \<open>Properties of the state predictor\<close>



text \<open>
  Claim C6. The AgentStateMessage sent for a NodeStarted and for a NodeFinished event
  carries as its state the JSON text of \<^verbatim>\<open>_filter_state(state)\<close>, and the message the
  predictor returns carries the JSON text of \<^verbatim>\<open>_filter_state\<close> of the state merged
  with the predicted state. The filtered dict is the given one without the items whose
  key is \<^verbatim>\<open>"messages"\<close> or \<^verbatim>\<open>"id"\<close>, in the same order: neither key occurs in it, and
  every other key occurs in it exactly when it occurs in the given dict, with the same
  value. Decoding the JSON text gives the filtered dict back, when no dict in the state
  has a key twice (which holds of the merged dict when it holds of the two dicts merged).
\<close>

theorem synthesized_state_excludes_bookkeeping:
  "handle_runtime_event parse (Lifecycle (NodeStarted name st)) ex
     = Inr (Some (emit_runtime_event (to_dict
              (agent_state_message (thread_id ex) (agent_name ex) name (run_id ex) True
                 ''assistant'' (json_dumps (PDict (filter_state st None))) True))),
            ex\<lparr>node_name := name, state := st\<rparr>)
   \<and> handle_runtime_event parse (Lifecycle (NodeFinished name st)) ex
     = Inr (Some (emit_runtime_event (to_dict
              (agent_state_message (thread_id ex) (agent_name ex) (node_name ex) (run_id ex) False
                 ''assistant'' (json_dumps (PDict (filter_state st None))) True))),
            ex\<lparr>predict_state_configuration := PDict [], current_tool_call := None,
               argument_buffer := [], predicted_state := [], state := st\<rparr>)
   \<and> (predict_state parse t a r event ex = Inr (Some message, ex') \<longrightarrow>
        message = agent_state_message t a (node_name ex') r True ''assistant''
           (json_dumps (PDict (filter_state
              (StateDict (dict_merge (to_dict_if_pydantic (state ex')) (predicted_state ex')))
              None))) True)
   \<and> filter_state s None
       = filter (\<lambda>(k, v). k \<noteq> ''messages'' \<and> k \<noteq> ''id'') (to_dict_if_pydantic s)
   \<and> ''messages'' \<notin> fst ` set (filter_state s None)
   \<and> ''id'' \<notin> fst ` set (filter_state s None)
   \<and> (k \<noteq> ''messages'' \<and> k \<noteq> ''id'' \<longrightarrow>
        map_of (filter_state s None) k = map_of (to_dict_if_pydantic s) k
        \<and> (k \<in> fst ` set (filter_state s None) \<longleftrightarrow> k \<in> fst ` set (to_dict_if_pydantic s)))
   \<and> (wf_pyval (PDict (to_dict_if_pydantic s)) \<longrightarrow>
        json_loads (json_dumps (PDict (filter_state s None))) = Some (PDict (filter_state s None)))
   \<and> (wf_items a' \<and> wf_items b' \<longrightarrow> wf_pyval (PDict (dict_merge a' b')))"
proof -
  have f: "filter_state s None
       = filter (\<lambda>(k, v). k \<noteq> ''messages'' \<and> k \<noteq> ''id'') (to_dict_if_pydantic s)"
    by (simp add: filter_state_def Let_def)
  have p: "predict_state parse t a r event ex = Inr (Some message, ex') \<longrightarrow>
        message = agent_state_message t a (node_name ex') r True ''assistant''
           (json_dumps (PDict (filter_state
              (StateDict (dict_merge (to_dict_if_pydantic (state ex')) (predicted_state ex')))
              None))) True"
    using predict_state_snapshot by blast
  have k: "fst ` set (filter_state s None) = fst ` set (to_dict_if_pydantic s) - {''messages'', ''id''}"
    by (rule filter_state_keys)
  have l: "wf_pyval (PDict (to_dict_if_pydantic s)) \<longrightarrow>
        json_loads (json_dumps (PDict (filter_state s None))) = Some (PDict (filter_state s None))"
    using loads_filter_state by blast
  have w: "wf_items a' \<and> wf_items b' \<longrightarrow> wf_pyval (PDict (dict_merge a' b'))"
    using wf_dict_merge by blast
  have "''messages'' \<notin> fst ` set (filter_state s None)"
    "''id'' \<notin> fst ` set (filter_state s None)"
    "k \<noteq> ''messages'' \<and> k \<noteq> ''id'' \<longrightarrow>
        map_of (filter_state s None) k = map_of (to_dict_if_pydantic s) k
        \<and> (k \<in> fst ` set (filter_state s None) \<longleftrightarrow> k \<in> fst ` set (to_dict_if_pydantic s))"
    using k filter_state_map_of [of s k] by simp_all
  moreover have "handle_runtime_event parse (Lifecycle (NodeStarted name st)) ex
     = Inr (Some (emit_runtime_event (to_dict
              (agent_state_message (thread_id ex) (agent_name ex) name (run_id ex) True
                 ''assistant'' (json_dumps (PDict (filter_state st None))) True))),
            ex\<lparr>node_name := name, state := st\<rparr>)"
    by (simp add: Let_def del: json_dumps.simps)
  moreover have "handle_runtime_event parse (Lifecycle (NodeFinished name st)) ex
     = Inr (Some (emit_runtime_event (to_dict
              (agent_state_message (thread_id ex) (agent_name ex) (node_name ex) (run_id ex) False
                 ''assistant'' (json_dumps (PDict (filter_state st None))) True))),
            ex\<lparr>predict_state_configuration := PDict [], current_tool_call := None,
               argument_buffer := [], predicted_state := [], state := st\<rparr>)"
    by (simp add: Let_def del: json_dumps.simps)
  ultimately show ?thesis
    using p f l w by blast
qed

theorem synthesized_state_excludes_bookkeeping_witness:
  "predict_state (\<lambda>s. Some (PDict [(''name'', PStr ''Alice'')])) ''thread_1'' ''assistant'' ''run_1''
      (ActionExecutionArgs ''exec1'' ''{}'') prediction_execution
     = Inr (Some (agent_state_message ''thread_1'' ''assistant'' [] ''run_1'' True ''assistant''
              (json_dumps (PDict [(''user_name'', PStr ''Alice''),
                                  (''user_email'', PStr ''alice@example.com''),
                                  (''name'', PStr ''Alice'')])) True),
            prediction_execution\<lparr>argument_buffer := ''{}'',
               predicted_state := [(''name'', PStr ''Alice'')]\<rparr>)
   \<and> filter_state docstring_state None
       = [(''user_name'', PStr ''Alice''), (''user_email'', PStr ''alice@example.com'')]
   \<and> map_of (filter_state docstring_state None) ''user_name'' = Some (PStr ''Alice'')
   \<and> json_loads (json_dumps (PDict (filter_state docstring_state None)))
       = Some (PDict [(''user_name'', PStr ''Alice''), (''user_email'', PStr ''alice@example.com'')])
   \<and> wf_pyval (PDict (dict_merge [(''id'', PStr ''thread_123'')] [(''name'', PStr ''Alice'')]))"
proof -
  let ?P = "\<lambda>s::string. Some (PDict [(''name'', PStr ''Alice'')])"
  let ?m = "agent_state_message ''thread_1'' ''assistant'' [] ''run_1'' True ''assistant''
              (json_dumps (PDict [(''user_name'', PStr ''Alice''),
                                  (''user_email'', PStr ''alice@example.com''),
                                  (''name'', PStr ''Alice'')])) True"
  let ?ex' = "prediction_execution\<lparr>argument_buffer := ''{}'',
               predicted_state := [(''name'', PStr ''Alice'')]\<rparr>"
  have p: "predict_state ?P ''thread_1'' ''assistant'' ''run_1''
      (ActionExecutionArgs ''exec1'' ''{}'') prediction_execution = Inr (Some ?m, ?ex')"
    by (simp add: predict_state_def prediction_execution_def scenario_execution_def
          example_execution_def docstring_state_def scenario_configuration_def py_items_def
          py_get_def py_getitem_def py_get_val_def py_of_opt_def filter_state_def dict_merge_def
          to_dict_if_pydantic_def Let_def del: json_dumps.simps)
  have n: "''user_name'' \<noteq> ''messages'' \<and> ''user_name'' \<noteq> ''id''" by simp
  have wf: "wf_pyval (PDict (to_dict_if_pydantic docstring_state))"
    by (simp add: docstring_state_def to_dict_if_pydantic_def)
  have wi: "wf_items [(''id'', PStr ''thread_123'')] \<and> wf_items [(''name'', PStr ''Alice'')]"
    by simp
  have fs: "filter_state docstring_state None
       = [(''user_name'', PStr ''Alice''), (''user_email'', PStr ''alice@example.com'')]"
    by (simp add: docstring_state_def filter_state_def to_dict_if_pydantic_def)
  from synthesized_state_excludes_bookkeeping [of ?P "''n''" docstring_state prediction_execution
      "''thread_1''" "''assistant''" "''run_1''" "ActionExecutionArgs ''exec1'' ''{}''" ?m ?ex'
      docstring_state "''user_name''" "[(''id'', PStr ''thread_123'')]"
      "[(''name'', PStr ''Alice'')]"] p n wf wi
  show ?thesis
    by (simp only: fs) (simp add: docstring_state_def to_dict_if_pydantic_def
          del: json_dumps.simps)
qed

text \<open>
  Claim C1, as amended. With the configuration
  \<^verbatim>\<open>{"name": {"tool_name": "update_user", "tool_argument": "name"}}\<close>, in a run that is not
  finished, the events ActionExecutionStart(exec1, "update_user"),
  ActionExecutionArgs(exec1, \<^verbatim>\<open>{"name": "Al\<close>) and ActionExecutionArgs(exec1, \<^verbatim>\<open>ice"}\<close>)
  yield three texts: the line of the start event alone; the line of the first
  ActionExecutionArgs event followed by a predicted AgentStateMessage whose state has
  \<^verbatim>\<open>name\<close> = "Al" (the partial parser accepts the unterminated string); and the line of the
  second ActionExecutionArgs event followed by a predicted AgentStateMessage whose state
  has \<^verbatim>\<open>name\<close> = "Alice". So two prediction snapshots are produced, one after each
  ActionExecutionArgs event, and the value of \<^verbatim>\<open>name\<close> in the last one is "Alice".
  The predicted state is taken to be a dict (no key twice); when the same holds of the
  dicts inside the state and the predicted state, each state text decodes to the dict it
  was written from.
\<close>

theorem prediction_scenario_snapshots:
  "predict_state_configuration ex = scenario_configuration \<and> \<not> is_finished ex
     \<and> distinct (map fst (predicted_state ex)) \<longrightarrow>
     copilotkit_run partial_json_parse prediction_scenario ex
       = ([emit_runtime_events [to_dict (action_execution_start ''exec1'' ''update_user'' None)],
           emit_runtime_events
             [to_dict (action_execution_args ''exec1'' scenario_chunk1),
              to_dict (agent_state_message (thread_id ex) (agent_name ex) (node_name ex)
                 (run_id ex) True ''assistant''
                 (json_dumps (PDict (snapshot_state (state ex)
                    (dict_set (predicted_state ex) ''name'' (PStr ''Al''))))) True)],
           emit_runtime_events
             [to_dict (action_execution_args ''exec1'' scenario_chunk2),
              to_dict (agent_state_message (thread_id ex) (agent_name ex) (node_name ex)
                 (run_id ex) True ''assistant''
                 (json_dumps (PDict (snapshot_state (state ex)
                    (dict_set (dict_set (predicted_state ex) ''name'' (PStr ''Al''))
                       ''name'' (PStr ''Alice''))))) True)]],
          Waiting,
          ex\<lparr>current_tool_call := Some ''update_user'',
             argument_buffer := scenario_chunk1 @ scenario_chunk2,
             predicted_state := dict_set (dict_set (predicted_state ex) ''name'' (PStr ''Al''))
                                  ''name'' (PStr ''Alice'')\<rparr>)
     \<and> map_of (snapshot_state (state ex) (dict_set (predicted_state ex) ''name'' (PStr ''Al'')))
           ''name'' = Some (PStr ''Al'')
     \<and> map_of (snapshot_state (state ex)
           (dict_set (dict_set (predicted_state ex) ''name'' (PStr ''Al'')) ''name'' (PStr ''Alice'')))
           ''name'' = Some (PStr ''Alice'')
     \<and> (wf_items (to_dict_if_pydantic (state ex)) \<and> wf_items (predicted_state ex) \<longrightarrow>
          json_loads (json_dumps (PDict (snapshot_state (state ex)
             (dict_set (predicted_state ex) ''name'' (PStr ''Al'')))))
            = Some (PDict (snapshot_state (state ex)
                 (dict_set (predicted_state ex) ''name'' (PStr ''Al''))))
          \<and> json_loads (json_dumps (PDict (snapshot_state (state ex)
             (dict_set (dict_set (predicted_state ex) ''name'' (PStr ''Al''))
                ''name'' (PStr ''Alice'')))))
            = Some (PDict (snapshot_state (state ex)
                 (dict_set (dict_set (predicted_state ex) ''name'' (PStr ''Al''))
                    ''name'' (PStr ''Alice'')))))"
proof (intro impI conjI)
  assume w: "wf_items (to_dict_if_pydantic (state ex)) \<and> wf_items (predicted_state ex)"
  then have w1: "wf_items (dict_set (predicted_state ex) ''name'' (PStr ''Al''))"
    by (simp add: wf_items_dict_set)
  then have w2: "wf_items (dict_set (dict_set (predicted_state ex) ''name'' (PStr ''Al''))
                ''name'' (PStr ''Alice''))"
    by (simp add: wf_items_dict_set)
  from w w1 show "json_loads (json_dumps (PDict (snapshot_state (state ex)
             (dict_set (predicted_state ex) ''name'' (PStr ''Al'')))))
            = Some (PDict (snapshot_state (state ex)
                 (dict_set (predicted_state ex) ''name'' (PStr ''Al''))))"
    by (simp only: loads_snapshot_state)
  from w w2 show "json_loads (json_dumps (PDict (snapshot_state (state ex)
             (dict_set (dict_set (predicted_state ex) ''name'' (PStr ''Al''))
                ''name'' (PStr ''Alice'')))))
            = Some (PDict (snapshot_state (state ex)
                 (dict_set (dict_set (predicted_state ex) ''name'' (PStr ''Al''))
                    ''name'' (PStr ''Alice''))))"
    by (simp only: loads_snapshot_state)
next
  assume h: "predict_state_configuration ex = scenario_configuration \<and> \<not> is_finished ex
     \<and> distinct (map fst (predicted_state ex))"
  then have d1: "distinct (map fst (dict_set (predicted_state ex) ''name'' (PStr ''Al'')))"
    by (simp add: distinct_dict_set)
  show "copilotkit_run partial_json_parse prediction_scenario ex
       = ([emit_runtime_events [to_dict (action_execution_start ''exec1'' ''update_user'' None)],
           emit_runtime_events
             [to_dict (action_execution_args ''exec1'' scenario_chunk1),
              to_dict (agent_state_message (thread_id ex) (agent_name ex) (node_name ex)
                 (run_id ex) True ''assistant''
                 (json_dumps (PDict (snapshot_state (state ex)
                    (dict_set (predicted_state ex) ''name'' (PStr ''Al''))))) True)],
           emit_runtime_events
             [to_dict (action_execution_args ''exec1'' scenario_chunk2),
              to_dict (agent_state_message (thread_id ex) (agent_name ex) (node_name ex)
                 (run_id ex) True ''assistant''
                 (json_dumps (PDict (snapshot_state (state ex)
                    (dict_set (dict_set (predicted_state ex) ''name'' (PStr ''Al''))
                       ''name'' (PStr ''Alice''))))) True)]],
          Waiting,
          ex\<lparr>current_tool_call := Some ''update_user'',
             argument_buffer := scenario_chunk1 @ scenario_chunk2,
             predicted_state := dict_set (dict_set (predicted_state ex) ''name'' (PStr ''Al''))
                                  ''name'' (PStr ''Alice'')\<rparr>)"
    using h
    by (simp add: prediction_scenario_def action_execution_start_def action_execution_args_def
          event_type_protocol predict_state_def Let_def scenario_configuration_def
          py_items_def py_get_def py_getitem_def py_get_val_def py_of_opt_def
          parse_chunk1 parse_chunk12 snapshot_state_def
          del: to_dict.simps event_type.simps(1) json_dumps.simps)
  show "map_of (snapshot_state (state ex) (dict_set (predicted_state ex) ''name'' (PStr ''Al'')))
           ''name'' = Some (PStr ''Al'')"
    using h by (simp add: snapshot_state_def filter_state_map_of map_of_dict_merge
          to_dict_if_pydantic_def map_of_rev_dict_set)
  show "map_of (snapshot_state (state ex)
           (dict_set (dict_set (predicted_state ex) ''name'' (PStr ''Al'')) ''name'' (PStr ''Alice'')))
           ''name'' = Some (PStr ''Alice'')"
    using d1 by (simp add: snapshot_state_def filter_state_map_of map_of_dict_merge
          to_dict_if_pydantic_def map_of_rev_dict_set)
qed

theorem prediction_scenario_snapshots_witness:
  "copilotkit_run partial_json_parse prediction_scenario scenario_execution
     = ([json_line (ActionExecutionStart ''exec1'' ''update_user'' None) @ [CHR 0x0A],
         json_line (ActionExecutionArgs ''exec1'' scenario_chunk1) @ [CHR 0x0A]
           @ json_line (AgentStateMessage ''thread_1'' ''assistant'' [] ''run_1'' True ''assistant''
                (''{'' @ quoted ''name'' @ '': '' @ quoted ''Al'' @ ''}'') True) @ [CHR 0x0A],
         json_line (ActionExecutionArgs ''exec1'' scenario_chunk2) @ [CHR 0x0A]
           @ json_line (AgentStateMessage ''thread_1'' ''assistant'' [] ''run_1'' True ''assistant''
                (''{'' @ quoted ''name'' @ '': '' @ quoted ''Alice'' @ ''}'') True) @ [CHR 0x0A]],
        Waiting,
        scenario_execution\<lparr>current_tool_call := Some ''update_user'',
           argument_buffer := scenario_chunk1 @ scenario_chunk2,
           predicted_state := [(''name'', PStr ''Alice'')]\<rparr>)
   \<and> json_loads (''{'' @ quoted ''name'' @ '': '' @ quoted ''Alice'' @ ''}'')
       = Some (PDict [(''name'', PStr ''Alice'')])"
proof -
  have h: "predict_state_configuration scenario_execution = scenario_configuration
     \<and> \<not> is_finished scenario_execution
     \<and> distinct (map fst (predicted_state scenario_execution))"
    by (simp add: scenario_execution_def example_execution_def)
  have i: "thread_id scenario_execution = ''thread_1''" "agent_name scenario_execution = ''assistant''"
    "run_id scenario_execution = ''run_1''" "node_name scenario_execution = []"
    "predicted_state scenario_execution = []" "state scenario_execution = StateDict []"
    by (simp_all add: scenario_execution_def example_execution_def)
  have l: "json_loads (''{'' @ quoted ''name'' @ '': '' @ quoted ''Alice'' @ ''}'')
       = Some (PDict [(''name'', PStr ''Alice'')])"
    by code_simp
  have wf: "wf_items (to_dict_if_pydantic (state scenario_execution))
      \<and> wf_items (predicted_state scenario_execution)"
    by (simp add: scenario_execution_def example_execution_def to_dict_if_pydantic_def)
  from prediction_scenario_snapshots [of scenario_execution] h wf
  have "copilotkit_run partial_json_parse prediction_scenario scenario_execution
       = ([emit_runtime_events [to_dict (ActionExecutionStart ''exec1'' ''update_user'' None)],
           emit_runtime_events
             [to_dict (ActionExecutionArgs ''exec1'' scenario_chunk1),
              to_dict (AgentStateMessage ''thread_1'' ''assistant'' [] ''run_1'' True ''assistant''
                 (''{'' @ quoted ''name'' @ '': '' @ quoted ''Al'' @ ''}'') True)],
           emit_runtime_events
             [to_dict (ActionExecutionArgs ''exec1'' scenario_chunk2),
              to_dict (AgentStateMessage ''thread_1'' ''assistant'' [] ''run_1'' True ''assistant''
                 (''{'' @ quoted ''name'' @ '': '' @ quoted ''Alice'' @ ''}'') True)]],
          Waiting,
          scenario_execution\<lparr>current_tool_call := Some ''update_user'',
             argument_buffer := scenario_chunk1 @ scenario_chunk2,
             predicted_state := [(''name'', PStr ''Alice'')]\<rparr>)"
    by (simp add: i snapshot_state_name dumps_name action_execution_start_def
          action_execution_args_def agent_state_message_def
          del: json_dumps.simps to_dict.simps)
  then show ?thesis
    using l by (simp only: emit_one emit_two)
qed

text \<open>
  The claim C1 as it was stated fails on the first ActionExecutionArgs event: the text
  forwarded for it is not the line of the event alone, a prediction snapshot with
  \<^verbatim>\<open>{"name": "Al"}\<close> as its state follows that line.
\<close>

theorem prediction_scenario_counterexample:
  "fst (copilotkit_run partial_json_parse (take 2 prediction_scenario) scenario_execution) ! 1
     = json_line (ActionExecutionArgs ''exec1'' scenario_chunk1) @ [CHR 0x0A]
         @ json_line (AgentStateMessage ''thread_1'' ''assistant'' [] ''run_1'' True ''assistant''
              (''{'' @ quoted ''name'' @ '': '' @ quoted ''Al'' @ ''}'') True) @ [CHR 0x0A]
   \<and> fst (copilotkit_run partial_json_parse (take 2 prediction_scenario) scenario_execution) ! 1
     \<noteq> emit_runtime_event (to_dict (action_execution_args ''exec1'' scenario_chunk1))"
proof -
  have "fst (copilotkit_run partial_json_parse (take 2 prediction_scenario) scenario_execution) ! 1
     = emit_runtime_events
         [to_dict (ActionExecutionArgs ''exec1'' scenario_chunk1),
          to_dict (AgentStateMessage ''thread_1'' ''assistant'' [] ''run_1'' True ''assistant''
              (''{'' @ quoted ''name'' @ '': '' @ quoted ''Al'' @ ''}'') True)]"
    by (simp add: prediction_scenario_def action_execution_start_def action_execution_args_def
          agent_state_message_def scenario_execution_def example_execution_def
          event_type_protocol predict_state_def Let_def scenario_configuration_def
          py_items_def py_get_def py_getitem_def py_get_val_def py_of_opt_def
          parse_chunk1 snapshot_state_name dumps_name
          del: to_dict.simps event_type.simps(1) json_dumps.simps)
  then show ?thesis
    by (simp only: emit_two emit_one emit_runtime_event_def action_execution_args_def) simp
qed

end
